theory Spec2Isabelle
  imports Complex_Main "HOL-Library.List_Lexorder" "HOL-Library.Multiset"
begin

section \<open>Python values used by loader.py\<close>

text \<open>
  Strings are \<open>string\<close>; a \<open>char\<close> stands for a code point below 256. An exception
  raised by the source is a value of \<open>py_error\<close>, carried in the left summand of a
  result.
\<close>

datatype py_error =
    TypeError string
  | IndexError string
  | OperationalError string
  | IntegrityError string
  | OSError string

text \<open>\<open>str.isspace\<close> on the code points below 256.\<close>

definition py_isspace :: "char \<Rightarrow> bool" where
  "py_isspace c = ((of_char c :: nat) \<in> {9, 10, 11, 12, 13, 28, 29, 30, 31, 32, 133, 160})"

text \<open>\<open>s.strip()\<close>: whitespace is removed at both ends only.\<close>

definition py_strip :: "string \<Rightarrow> string" where
  "py_strip s = rev (dropWhile py_isspace (rev (dropWhile py_isspace s)))"

text \<open>\<open>s.replace(" ", "_")\<close>: every space character (code 32) becomes an underscore.\<close>

definition replace_space :: "string \<Rightarrow> string" where
  "replace_space s = map (\<lambda>c. if c = CHR '' '' then CHR ''_'' else c) s"

text \<open>\<open>safe_tag_column\<close> (loader.py, line 211).\<close>

definition safe_tag_column :: "string \<Rightarrow> string" where
  "safe_tag_column tag_name = ''tag_'' @ replace_space (py_strip tag_name)"

section \<open>The perceptual hash\<close>

subsection \<open>ImageHash\<close>

text \<open>
  A boolean numpy array of two dimensions is the list of its rows. \<open>a.size\<close> is the
  number of elements, \<open>a.flatten()\<close> the rows one after the other.
\<close>

definition np_size :: "'a list list \<Rightarrow> nat" where
  "np_size a = length (concat a)"

definition flatten :: "'a list list \<Rightarrow> 'a list" where
  "flatten a = concat a"

definition count_nonzero :: "bool list \<Rightarrow> nat" where
  "count_nonzero bs = length (filter (\<lambda>b. b) bs)"

text \<open>
  \<open>ImageHash.__sub__\<close> (line 43). The other operand may be \<open>None\<close>. The comparison
  of the two sizes comes before the element-wise comparison of the flattened arrays.
\<close>

definition ImageHash_sub :: "bool list list \<Rightarrow> bool list list option \<Rightarrow> py_error + nat" where
  "ImageHash_sub self other =
     (case other of
        None \<Rightarrow> Inl (TypeError ''Other hash must not be None.'')
      | Some oth \<Rightarrow>
          if np_size self \<noteq> np_size oth
          then Inl (TypeError ''ImageHashes must be of the same size.'')
          else Inr (count_nonzero (map2 (\<lambda>x y. x \<noteq> y) (flatten self) (flatten oth))))"

text \<open>
  An array of \<open>m\<close> rows and \<open>n\<close> columns. A fingerprint of hash size \<open>h\<close> is an \<open>h\<close> by
  \<open>h\<close> array of bits: line 117 is the only place that builds an \<open>ImageHash\<close>, from the
  square block \<open>dct[:hash_size, :hash_size]\<close>.
\<close>

definition rectangular :: "nat \<Rightarrow> nat \<Rightarrow> 'a list list \<Rightarrow> bool" where
  "rectangular m n a = (length a = m \<and> list_all (\<lambda>r. length r = n) a)"

subsection \<open>The arithmetic of float64\<close>

text \<open>
  The source computes in \<open>float64\<close>, with the operations of Python and numpy. Their
  rounding is not fixed here: the operations are a parameter of the embedding, over a
  type \<open>'f\<close> of floating-point values, and whatever is proved holds for every choice
  of them, so also for the ones of the machine.

  \<^item> \<open>fl_zero\<close> is \<open>0.0\<close>, \<open>fl_add\<close> and \<open>fl_mul\<close> are \<open>+\<close> and \<open>*\<close>, and \<open>fl_gt x y\<close> is
    \<open>x > y\<close>;
  \<^item> \<open>np_cos_term n k N\<close> is \<open>np.cos(np.pi * (n + 0.5) * k / N)\<close>;
  \<^item> \<open>np_sqrt_1_over N\<close> is \<open>np.sqrt(1.0 / N)\<close> and \<open>np_sqrt_2_over N\<close> is
    \<open>np.sqrt(2.0 / N)\<close>;
  \<^item> \<open>np_mean\<close> is \<open>np.mean\<close> on an array of one dimension.
\<close>

record 'f arithmetic =
  fl_zero :: 'f
  fl_add :: "'f \<Rightarrow> 'f \<Rightarrow> 'f"
  fl_mul :: "'f \<Rightarrow> 'f \<Rightarrow> 'f"
  fl_gt :: "'f \<Rightarrow> 'f \<Rightarrow> bool"
  np_cos_term :: "nat \<Rightarrow> nat \<Rightarrow> nat \<Rightarrow> 'f"
  np_sqrt_1_over :: "nat \<Rightarrow> 'f"
  np_sqrt_2_over :: "nat \<Rightarrow> 'f"
  np_mean :: "'f list \<Rightarrow> 'f"

subsection \<open>The discrete cosine transform\<close>

text \<open>
  \<open>dct_1d\<close> (line 55): for every \<open>k\<close> the sum \<open>s\<close> starts at \<open>0.0\<close> and takes the terms
  in the order of \<open>n\<close>; the result is \<open>s\<close> times the factor of \<open>k\<close>.
\<close>

definition dct_1d :: "'f arithmetic \<Rightarrow> 'f list \<Rightarrow> 'f list" where
  "dct_1d ar vector =
     (let N = length vector in
      map (\<lambda>k.
             let s = foldl (\<lambda>s n. fl_add ar s (fl_mul ar (vector ! n) (np_cos_term ar n k N)))
                       (fl_zero ar) [0..<N]
             in if k = 0 then fl_mul ar s (np_sqrt_1_over ar N)
                else fl_mul ar s (np_sqrt_2_over ar N))
          [0..<N])"

definition column :: "'a list list \<Rightarrow> nat \<Rightarrow> 'a list" where
  "column m j = map (\<lambda>r. r ! j) m"

text \<open>\<open>dct_2d\<close> (line 71): the transform of every row, then of every column of the result.\<close>

definition dct_2d :: "'f arithmetic \<Rightarrow> 'f list list \<Rightarrow> 'f list list" where
  "dct_2d ar matrix =
     (let M = length matrix;
          N = (case matrix of [] \<Rightarrow> 0 | r # _ \<Rightarrow> length r);
          dct_rows = map (dct_1d ar) matrix
      in map (\<lambda>i. map (\<lambda>j. dct_1d ar (column dct_rows j) ! i) [0..<N]) [0..<M])"

subsection \<open>phash\<close>

text \<open>\<open>a[:h, :h]\<close>: the first \<open>h\<close> rows, and of each its first \<open>h\<close> entries.\<close>

definition top_left :: "nat \<Rightarrow> 'a list list \<Rightarrow> 'a list list" where
  "top_left h a = map (take h) (take h a)"

text \<open>
  Steps 3 to 5 of \<open>phash\<close> (lines 105 to 117), from the matrix of DCT coefficients.
  The assignment \<open>diff[0, 0] = 0\<close> raises \<open>IndexError\<close> on an array with no element.
\<close>

definition phash_threshold :: "'f arithmetic \<Rightarrow> 'f list list \<Rightarrow> nat \<Rightarrow> py_error + bool list list" where
  "phash_threshold ar dct hash_size =
     (let dct_low = top_left hash_size dct;
          dct_flat = flatten dct_low;
          dct_without_dc = drop 1 dct_flat;
          avg = np_mean ar dct_without_dc;
          diff = map (map (\<lambda>x. fl_gt ar x avg)) dct_low
      in case diff of
           [] \<Rightarrow> Inl (IndexError ''index 0 is out of bounds for axis 0 with size 0'')
         | r # rs \<Rightarrow>
             (case r of
                [] \<Rightarrow> Inl (IndexError ''index 0 is out of bounds for axis 1 with size 0'')
              | b # bs \<Rightarrow> Inr ((False # bs) # rs)))"

text \<open>
  \<open>phash\<close> (line 86) from \<open>pixels\<close>, the grid of luminances that step 1 hands to the
  transform (conversion and resampling are the image library's).
\<close>

definition phash :: "'f arithmetic \<Rightarrow> 'f list list \<Rightarrow> nat \<Rightarrow> py_error + bool list list" where
  "phash ar pixels hash_size = phash_threshold ar (dct_2d ar pixels) hash_size"

text \<open>
  In the words of the specification: the coefficients of the top-left \<open>h\<close> by \<open>h\<close>
  block except the one at \<open>(0, 0)\<close>, row after row. Their mean is the threshold.
\<close>

definition coefficients_without_dc :: "'a list list \<Rightarrow> nat \<Rightarrow> 'a list" where
  "coefficients_without_dc dct h =
     concat (map (\<lambda>i. map (\<lambda>j. dct ! i ! j) (filter (\<lambda>j. (i, j) \<noteq> (0, 0)) [0..<h])) [0..<h])"

text \<open>
  One choice of the operations, for examples: the real numbers, with no rounding.
\<close>

definition exact_arithmetic :: "real arithmetic" where
  "exact_arithmetic =
     \<lparr> fl_zero = 0, fl_add = (\<lambda>x y. x + y), fl_mul = (\<lambda>x y. x * y), fl_gt = (\<lambda>x y. y < x),
       np_cos_term = (\<lambda>n k N. cos (pi * (real n + 0.5) * real k / real N)),
       np_sqrt_1_over = (\<lambda>N. sqrt (1.0 / real N)),
       np_sqrt_2_over = (\<lambda>N. sqrt (2.0 / real N)),
       np_mean = (\<lambda>xs. sum_list xs / real (length xs)) \<rparr>"

section \<open>Paths and formatting\<close>

text \<open>\<open>os.path\<close> on POSIX paths: \<open>basename\<close>, \<open>dirname\<close>, \<open>splitext\<close> and \<open>join\<close>.\<close>

definition is_sep :: "char \<Rightarrow> bool" where
  "is_sep c = (c = CHR ''/'')"

definition basename :: "string \<Rightarrow> string" where
  "basename p = rev (takeWhile (\<lambda>c. \<not> is_sep c) (rev p))"

definition dirname :: "string \<Rightarrow> string" where
  "dirname p =
     (let head = rev (dropWhile (\<lambda>c. \<not> is_sep c) (rev p))
      in if head \<noteq> [] \<and> \<not> list_all is_sep head
         then rev (dropWhile is_sep (rev head))
         else head)"

text \<open>
  \<open>splitext\<close>: the extension starts at the last dot of the last component, unless only
  dots stand before it in that component.
\<close>

definition splitext :: "string \<Rightarrow> string \<times> string" where
  "splitext p =
     (let base = basename p;
          dir = take (length p - length base) p;
          ext_rev = takeWhile (\<lambda>c. c \<noteq> CHR ''.'') (rev base);
          stem = take (length base - length ext_rev - 1) base
      in if CHR ''.'' \<in> set base \<and> \<not> list_all (\<lambda>c. c = CHR ''.'') stem
         then (dir @ stem, drop (length stem) base)
         else (p, []))"

definition path_join :: "string \<Rightarrow> string \<Rightarrow> string" where
  "path_join a b =
     (if take 1 b = ''/'' then b
      else if a = [] \<or> is_sep (last a) then a @ b
      else a @ ''/'' @ b)"

text \<open>Decimal digits, and the format \<open>{:05d}\<close> of an identifier.\<close>

fun show_nat :: "nat \<Rightarrow> string" where
  "show_nat n =
     (if n < 10 then [char_of (48 + n)]
      else show_nat (n div 10) @ [char_of (48 + n mod 10)])"

declare show_nat.simps [simp del]

definition zero_pad :: "nat \<Rightarrow> string \<Rightarrow> string" where
  "zero_pad w s = replicate (w - length s) (CHR ''0'') @ s"

definition format_05d :: "int \<Rightarrow> string" where
  "format_05d i =
     (if i < 0 then ''-'' @ zero_pad 4 (show_nat (nat (- i)))
      else zero_pad 5 (show_nat (nat i)))"

text \<open>\<open>s.startswith(p)\<close> and \<open>sub in s\<close>.\<close>

definition startswith :: "string \<Rightarrow> string \<Rightarrow> bool" where
  "startswith s p = (take (length p) s = p)"


section \<open>The SQL engine, as far as loader.py uses it\<close>

text \<open>
  The catalog is an SQLite file. What the statements of loader.py do to it is written
  out here: values, tables with the column descriptions that \<open>PRAGMA table_info\<close> lists
  (name, declared type, NOT NULL flag, default as text, primary-key position), the two
  properties of the table that the pragma does not list (AUTOINCREMENT and the UNIQUE
  columns), and the table \<open>sqlite_sequence\<close> of the AUTOINCREMENT counters.
  A row holds its values by column name, in the order of the columns.
\<close>

datatype sql_value = SNull | SInt int | SText string

record column_info =
  col_name :: string
  col_type :: string
  col_notnull :: bool
  col_dflt :: "string option"
  col_pk :: nat

type_synonym sql_row = "(string \<times> sql_value) list"

record sql_table =
  tbl_columns :: "column_info list"
  tbl_rows :: "sql_row list"
  tbl_autoincrement :: bool
  tbl_unique :: "string list"

record database =
  db_tables :: "(string \<times> sql_table) list"
  db_sequence :: "(string \<times> int) list"

text \<open>Names of columns are compared without regard to the case of ASCII letters.\<close>

definition sql_lower :: "char \<Rightarrow> char" where
  "sql_lower c =
     (case map_of (zip ''ABCDEFGHIJKLMNOPQRSTUVWXYZ'' ''abcdefghijklmnopqrstuvwxyz'') c of
        Some l \<Rightarrow> l
      | None \<Rightarrow> c)"

definition ident_eq :: "string \<Rightarrow> string \<Rightarrow> bool" where
  "ident_eq a b = (map sql_lower a = map sql_lower b)"

text \<open>
  A plain identifier: letters, digits and underscores, not starting with a digit. A
  statement that loader.py builds by pasting such a name into its text reads as meant.
\<close>

definition ident_char :: "char \<Rightarrow> bool" where
  "ident_char c =
     (c \<in> set ''abcdefghijklmnopqrstuvwxyzABCDEFGHIJKLMNOPQRSTUVWXYZ0123456789_'')"

definition sql_ident :: "string \<Rightarrow> bool" where
  "sql_ident s = (s \<noteq> [] \<and> list_all ident_char s \<and> hd s \<notin> set ''0123456789'')"

definition get_table :: "database \<Rightarrow> string \<Rightarrow> sql_table option" where
  "get_table db name = map_of (db_tables db) name"

definition set_table :: "database \<Rightarrow> string \<Rightarrow> sql_table \<Rightarrow> database" where
  "set_table db name t =
     db\<lparr>db_tables := map (\<lambda>(n, old). if n = name then (n, t) else (n, old)) (db_tables db)\<rparr>"

fun row_get :: "sql_row \<Rightarrow> string \<Rightarrow> sql_value option" where
  "row_get [] n = None"
| "row_get ((k, v) # r) n = (if ident_eq k n then Some v else row_get r n)"

definition row_set :: "sql_row \<Rightarrow> string \<Rightarrow> sql_value \<Rightarrow> sql_row" where
  "row_set r n v = map (\<lambda>(k, old). if ident_eq k n then (k, v) else (k, old)) r"

definition has_column :: "sql_table \<Rightarrow> string \<Rightarrow> bool" where
  "has_column t n = list_ex (\<lambda>c. ident_eq (col_name c) n) (tbl_columns t)"

text \<open>The value of a default written as text: a decimal literal, \<open>NULL\<close>, or a text.\<close>

definition sql_literal :: "string \<Rightarrow> sql_value" where
  "sql_literal s =
     (if s \<noteq> [] \<and> list_all (\<lambda>c. c \<in> set ''0123456789'') s
      then SInt (int (foldl (\<lambda>n c. 10 * n + (of_char c - 48)) 0 s))
      else if s = ''NULL'' then SNull else SText s)"

definition default_value :: "column_info \<Rightarrow> sql_value" where
  "default_value c = (case col_dflt c of None \<Rightarrow> SNull | Some s \<Rightarrow> sql_literal s)"

text \<open>\<open>PRAGMA table_info(t)\<close>: no row for a table that does not exist.\<close>

definition pragma_table_info :: "database \<Rightarrow> string \<Rightarrow> column_info list" where
  "pragma_table_info db t = (case get_table db t of None \<Rightarrow> [] | Some tb \<Rightarrow> tbl_columns tb)"

text \<open>
  The row identifiers of a table are the values of its INTEGER PRIMARY KEY column. A new
  row gets the largest identifier in the table plus one; a table declared AUTOINCREMENT
  takes the largest identifier it ever held, kept in \<open>sqlite_sequence\<close>, instead.
\<close>

definition rowids :: "sql_table \<Rightarrow> int list" where
  "rowids t =
     concat (map (\<lambda>r. concat (map (\<lambda>c. if col_pk c \<noteq> 0
                                          then (case row_get r (col_name c) of
                                                  Some (SInt i) \<Rightarrow> [i] | _ \<Rightarrow> [])
                                          else [])
                                   (tbl_columns t)))
                 (tbl_rows t))"

definition max_rowid :: "sql_table \<Rightarrow> int" where
  "max_rowid t = foldl max 0 (rowids t)"

definition sequence_of :: "database \<Rightarrow> string \<Rightarrow> int" where
  "sequence_of db name = (case map_of (db_sequence db) name of None \<Rightarrow> 0 | Some s \<Rightarrow> s)"

definition set_sequence :: "database \<Rightarrow> string \<Rightarrow> int \<Rightarrow> database" where
  "set_sequence db name s =
     db\<lparr>db_sequence := filter (\<lambda>(n, _). n \<noteq> name) (db_sequence db) @ [(name, s)]\<rparr>"

definition next_rowid :: "database \<Rightarrow> string \<Rightarrow> sql_table \<Rightarrow> int" where
  "next_rowid db name t =
     (if tbl_autoincrement t then max (max_rowid t) (sequence_of db name) + 1
      else max_rowid t + 1)"

text \<open>
  \<open>INSERT INTO t (columns) VALUES (values)\<close>: the row identifier is assigned, a column
  that is not named gets its default, and NOT NULL and UNIQUE are checked. The result
  holds \<open>last_insert_rowid()\<close>.
\<close>

definition new_row :: "sql_table \<Rightarrow> int \<Rightarrow> sql_row \<Rightarrow> sql_row" where
  "new_row t rowid given =
     map (\<lambda>c. (col_name c,
                if col_pk c \<noteq> 0 then SInt rowid
                else (case row_get given (col_name c) of
                        Some v \<Rightarrow> v
                      | None \<Rightarrow> default_value c)))
         (tbl_columns t)"

definition violates_notnull :: "sql_table \<Rightarrow> sql_row \<Rightarrow> bool" where
  "violates_notnull t row =
     list_ex (\<lambda>c. col_notnull c \<and> row_get row (col_name c) = Some SNull) (tbl_columns t)"

definition violates_unique :: "sql_table \<Rightarrow> sql_row \<Rightarrow> bool" where
  "violates_unique t row =
     list_ex (\<lambda>u. row_get row u \<noteq> Some SNull \<and>
                   list_ex (\<lambda>r. row_get r u = row_get row u) (tbl_rows t))
             (tbl_unique t)"

definition sql_insert :: "database \<Rightarrow> string \<Rightarrow> sql_row \<Rightarrow> py_error + database \<times> int" where
  "sql_insert db name given =
     (case get_table db name of
        None \<Rightarrow> Inl (OperationalError (''no such table: '' @ name))
      | Some t \<Rightarrow>
          let rowid = next_rowid db name t;
              row = new_row t rowid given
          in if violates_notnull t row
             then Inl (IntegrityError ''NOT NULL constraint failed'')
             else if violates_unique t row
             then Inl (IntegrityError ''UNIQUE constraint failed'')
             else
               let db1 = set_table db name (t\<lparr>tbl_rows := tbl_rows t @ [row]\<rparr>);
                   db2 = (if tbl_autoincrement t then set_sequence db1 name rowid else db1)
               in Inr (db2, rowid))"

text \<open>\<open>UPDATE t SET cname = value WHERE id = ?\<close>.\<close>

definition sql_update :: "database \<Rightarrow> string \<Rightarrow> string \<Rightarrow> sql_value \<Rightarrow> int \<Rightarrow> py_error + database" where
  "sql_update db name cname v ident =
     (case get_table db name of
        None \<Rightarrow> Inl (OperationalError (''no such table: '' @ name))
      | Some t \<Rightarrow>
          if \<not> has_column t cname
          then Inl (OperationalError (''no such column: '' @ cname))
          else if \<not> has_column t ''id''
          then Inl (OperationalError ''no such column: id'')
          else Inr (set_table db name
                 (t\<lparr>tbl_rows := map (\<lambda>r. if row_get r ''id'' = Some (SInt ident)
                                            then row_set r cname v else r)
                                      (tbl_rows t)\<rparr>)))"

text \<open>\<open>DELETE FROM t WHERE id = ?\<close>.\<close>

definition sql_delete :: "database \<Rightarrow> string \<Rightarrow> int \<Rightarrow> py_error + database" where
  "sql_delete db name ident =
     (case get_table db name of
        None \<Rightarrow> Inl (OperationalError (''no such table: '' @ name))
      | Some t \<Rightarrow>
          if \<not> has_column t ''id''
          then Inl (OperationalError ''no such column: id'')
          else Inr (set_table db name
                 (t\<lparr>tbl_rows := filter (\<lambda>r. row_get r ''id'' \<noteq> Some (SInt ident))
                                         (tbl_rows t)\<rparr>)))"

text \<open>
  \<open>ALTER TABLE t ADD COLUMN column BOOLEAN DEFAULT 0\<close>: refused when the table has a
  column of that name; every row of the table reads the default in the new column.
\<close>

definition sql_add_column :: "database \<Rightarrow> string \<Rightarrow> column_info \<Rightarrow> py_error + database" where
  "sql_add_column db name c =
     (case get_table db name of
        None \<Rightarrow> Inl (OperationalError (''no such table: '' @ name))
      | Some t \<Rightarrow>
          if has_column t (col_name c)
          then Inl (OperationalError (''duplicate column name: '' @ col_name c))
          else Inr (set_table db name
                 (t\<lparr>tbl_columns := tbl_columns t @ [c],
                    tbl_rows := map (\<lambda>r. r @ [(col_name c, default_value c)]) (tbl_rows t)\<rparr>)))"

subsection \<open>Creating, copying, dropping and renaming tables\<close>

text \<open>
  A column definition of \<open>CREATE TABLE\<close> is kept as the list of its parts (the name,
  the type and the constraints, which the statement joins with blanks). The engine
  reads the name first, then a type if the next part is not a constraint, then the
  constraints \<open>NOT NULL\<close>, \<open>DEFAULT value\<close> and \<open>PRIMARY KEY\<close>.
\<close>

definition is_constraint :: "string \<Rightarrow> bool" where
  "is_constraint p = (p = ''NOT NULL'' \<or> p = ''PRIMARY KEY'' \<or> take 8 p = ''DEFAULT '')"

fun read_constraints :: "string list \<Rightarrow> column_info \<Rightarrow> column_info" where
  "read_constraints [] c = c"
| "read_constraints (p # ps) c =
     read_constraints ps
       (if p = ''NOT NULL'' then c\<lparr>col_notnull := True\<rparr>
        else if p = ''PRIMARY KEY'' then c\<lparr>col_pk := 1\<rparr>
        else if take 8 p = ''DEFAULT '' then c\<lparr>col_dflt := Some (drop 8 p)\<rparr>
        else c)"

definition plain_column :: "string \<Rightarrow> string \<Rightarrow> column_info" where
  "plain_column n t =
     \<lparr>col_name = n, col_type = t, col_notnull = False, col_dflt = None, col_pk = 0\<rparr>"

definition read_col_def :: "string list \<Rightarrow> column_info option" where
  "read_col_def parts =
     (case parts of
        [] \<Rightarrow> None
      | n # rest \<Rightarrow>
          (case rest of
             [] \<Rightarrow> Some (plain_column n [])
           | t # cs \<Rightarrow>
               if is_constraint t then Some (read_constraints rest (plain_column n []))
               else Some (read_constraints cs (plain_column n t))))"

fun distinct_idents :: "string list \<Rightarrow> bool" where
  "distinct_idents [] = True"
| "distinct_idents (n # ns) = (\<not> list_ex (ident_eq n) ns \<and> distinct_idents ns)"

text \<open>
  \<open>CREATE TABLE name (definitions)\<close>. The new table is empty, is not AUTOINCREMENT
  and has no UNIQUE column: a definition made of the five parts above cannot say so.
\<close>

definition sql_create_table :: "database \<Rightarrow> string \<Rightarrow> string list list \<Rightarrow> py_error + database" where
  "sql_create_table db name col_defs =
     (if get_table db name \<noteq> None
      then Inl (OperationalError (''table '' @ name @ '' already exists''))
      else if col_defs = [] \<or> list_ex (\<lambda>d. read_col_def d = None) col_defs
      then Inl (OperationalError ''syntax error'')
      else
        let cols = map (\<lambda>d. the (read_col_def d)) col_defs
        in if \<not> distinct_idents (map col_name cols)
           then Inl (OperationalError ''duplicate column name'')
           else if 1 < length (filter (\<lambda>c. col_pk c \<noteq> 0) cols)
           then Inl (OperationalError (''table '' @ name @ '' has more than one primary key''))
           else Inr (db\<lparr>db_tables := db_tables db @
                      [(name, \<lparr>tbl_columns = cols, tbl_rows = [],
                               tbl_autoincrement = False, tbl_unique = []\<rparr>)]\<rparr>))"

text \<open>
  \<open>INSERT INTO dst (names) SELECT names FROM src\<close>: every row of the source, with
  the values of the named columns; a column of the destination that is not named reads
  its default.
\<close>

definition sql_insert_select :: "database \<Rightarrow> string \<Rightarrow> string list \<Rightarrow> string \<Rightarrow> py_error + database" where
  "sql_insert_select db dst names src =
     (case get_table db dst of
        None \<Rightarrow> Inl (OperationalError (''no such table: '' @ dst))
      | Some d \<Rightarrow>
          (case get_table db src of
             None \<Rightarrow> Inl (OperationalError (''no such table: '' @ src))
           | Some s \<Rightarrow>
               if names = [] then Inl (OperationalError ''syntax error'')
               else if list_ex (\<lambda>n. \<not> has_column d n \<or> \<not> has_column s n) names
               then Inl (OperationalError ''no such column'')
               else
                 let copy = (\<lambda>r. map (\<lambda>c. (col_name c,
                                   if list_ex (ident_eq (col_name c)) names
                                   then (case row_get r (col_name c) of
                                           Some v \<Rightarrow> v | None \<Rightarrow> SNull)
                                   else default_value c))
                                 (tbl_columns d))
                 in Inr (set_table db dst
                      (d\<lparr>tbl_rows := tbl_rows d @ map copy (tbl_rows s)\<rparr>))))"

text \<open>\<open>DROP TABLE name\<close>: the table goes, and its counter in \<open>sqlite_sequence\<close>.\<close>

definition sql_drop_table :: "database \<Rightarrow> string \<Rightarrow> py_error + database" where
  "sql_drop_table db name =
     (if get_table db name = None
      then Inl (OperationalError (''no such table: '' @ name))
      else Inr (db\<lparr>db_tables := filter (\<lambda>(n, _). n \<noteq> name) (db_tables db),
                    db_sequence := filter (\<lambda>(n, _). n \<noteq> name) (db_sequence db)\<rparr>))"

text \<open>\<open>ALTER TABLE old RENAME TO new\<close>.\<close>

definition sql_rename_table :: "database \<Rightarrow> string \<Rightarrow> string \<Rightarrow> py_error + database" where
  "sql_rename_table db old new =
     (if get_table db old = None
      then Inl (OperationalError (''no such table: '' @ old))
      else if get_table db new \<noteq> None
      then Inl (OperationalError (''there is already another table or index with this name: '' @ new))
      else Inr (db\<lparr>db_tables := map (\<lambda>(n, t). if n = old then (new, t) else (n, t)) (db_tables db),
                    db_sequence := map (\<lambda>(n, s). if n = old then (new, s) else (n, s))
                                     (db_sequence db)\<rparr>))"

subsection \<open>Connections and transactions\<close>

text \<open>
  A connection sees its own uncommitted changes; the file holds what was committed.
  Inside a transaction opened by \<open>BEGIN\<close> a statement changes the view of the
  connection only, and \<open>commit\<close> writes the view to the file. A statement that fails
  changes nothing. Besides the errors of the statement itself, a call can fail for a
  reason outside the statement: the disk is full, or another connection holds a lock
  for longer than this one waits. \<open>fault k = Some m\<close> says that the \<open>k\<close>-th call raises
  \<open>OperationalError\<close> with the message \<open>m\<close>; the transaction of the connection stays
  open then.
\<close>

datatype statement =
    Begin_Transaction
  | Create_Table string "string list list"
  | Insert_Select string "string list" string
  | Drop_Table string
  | Rename_Table string string

record connection =
  on_disk :: database
  view :: database
  in_transaction :: bool

definition sqlite3_connect :: "database \<Rightarrow> connection" where
  "sqlite3_connect db = \<lparr>on_disk = db, view = db, in_transaction = False\<rparr>"

fun run_statement :: "database \<Rightarrow> statement \<Rightarrow> py_error + database" where
  "run_statement db Begin_Transaction = Inr db"
| "run_statement db (Create_Table name col_defs) = sql_create_table db name col_defs"
| "run_statement db (Insert_Select dst names src) = sql_insert_select db dst names src"
| "run_statement db (Drop_Table name) = sql_drop_table db name"
| "run_statement db (Rename_Table old new) = sql_rename_table db old new"

definition cursor_execute :: "(nat \<Rightarrow> string option) \<Rightarrow> nat \<Rightarrow> connection \<Rightarrow> statement \<Rightarrow> py_error + connection" where
  "cursor_execute fault k conn st =
     (case fault k of
        Some m \<Rightarrow> Inl (OperationalError m)
      | None \<Rightarrow>
          if st = Begin_Transaction
          then (if in_transaction conn
                then Inl (OperationalError ''cannot start a transaction within a transaction'')
                else Inr (conn\<lparr>in_transaction := True\<rparr>))
          else (case run_statement (view conn) st of
                  Inl e \<Rightarrow> Inl e
                | Inr db \<Rightarrow>
                    Inr (if in_transaction conn then conn\<lparr>view := db\<rparr>
                         else conn\<lparr>view := db, on_disk := db\<rparr>)))"

definition conn_commit :: "connection \<Rightarrow> connection" where
  "conn_commit conn = conn\<lparr>on_disk := view conn, in_transaction := False\<rparr>"

text \<open>
  The calls of \<open>cursor.execute\<close> one after the other, from call number \<open>k\<close>. The first
  failure raises: the connection is left as it is then, and the statements after it
  do not run.
\<close>

fun execute_all :: "(nat \<Rightarrow> string option) \<Rightarrow> nat \<Rightarrow> connection \<Rightarrow> statement list \<Rightarrow> connection \<times> py_error option" where
  "execute_all fault k conn [] = (conn, None)"
| "execute_all fault k conn (st # sts) =
     (case cursor_execute fault k conn st of
        Inl e \<Rightarrow> (conn, Some e)
      | Inr conn' \<Rightarrow> execute_all fault (Suc k) conn' sts)"

text \<open>
  A transaction that has written holds the write lock of the file until it is committed
  or rolled back, or until its connection is closed. While it does, the first
  statement of another connection that writes waits for the lock and then raises
  \<open>database is locked\<close>; \<open>BEGIN\<close> takes no lock. \<open>locked_out conn\<close> is what the calls of
  a rebuild (\<open>BEGIN\<close> is call 0, every later call writes) meet while \<open>conn\<close> is open.
\<close>

definition holds_write_lock :: "connection \<Rightarrow> bool" where
  "holds_write_lock conn = (in_transaction conn \<and> view conn \<noteq> on_disk conn)"

definition locked_out :: "connection \<Rightarrow> nat \<Rightarrow> string option" where
  "locked_out conn k =
     (if holds_write_lock conn \<and> 0 < k then Some ''database is locked'' else None)"

subsection \<open>Queries\<close>








section \<open>The catalog operations of loader.py\<close>

fun error_text :: "py_error \<Rightarrow> string" where
  "error_text (TypeError m) = m"
| "error_text (IndexError m) = m"
| "error_text (OperationalError m) = m"
| "error_text (IntegrityError m) = m"
| "error_text (OSError m) = m"

subsection \<open>The schema\<close>

text \<open>
  \<open>initialize_database\<close> (line 184): \<open>CREATE TABLE IF NOT EXISTS hdri\<close> with the
  column \<open>id INTEGER PRIMARY KEY AUTOINCREMENT\<close>, four \<open>TEXT NOT NULL\<close> columns and
  \<open>hash TEXT UNIQUE\<close>.
\<close>

definition hdri_columns :: "column_info list" where
  "hdri_columns =
     [(plain_column ''id'' ''INTEGER'')\<lparr>col_pk := 1\<rparr>,
      (plain_column ''file_path'' ''TEXT'')\<lparr>col_notnull := True\<rparr>,
      (plain_column ''preview_path'' ''TEXT'')\<lparr>col_notnull := True\<rparr>,
      (plain_column ''name'' ''TEXT'')\<lparr>col_notnull := True\<rparr>,
      (plain_column ''upload_date'' ''TEXT'')\<lparr>col_notnull := True\<rparr>,
      plain_column ''hash'' ''TEXT'']"

definition initialize_database :: "database \<Rightarrow> database" where
  "initialize_database db =
     (if get_table db ''hdri'' \<noteq> None then db
      else db\<lparr>db_tables := db_tables db @
             [(''hdri'', \<lparr>tbl_columns = hdri_columns, tbl_rows = [],
                         tbl_autoincrement = True, tbl_unique = [''hash'']\<rparr>)]\<rparr>)"

definition empty_database :: database where
  "empty_database = \<lparr>db_tables = [], db_sequence = []\<rparr>"

text \<open>\<open>get_tag_columns\<close> (line 202).\<close>

definition get_tag_columns :: "database \<Rightarrow> string list" where
  "get_tag_columns db =
     map col_name (filter (\<lambda>col. startswith (col_name col) ''tag_'') (pragma_table_info db ''hdri''))"

subsection \<open>Removing a tag\<close>

text \<open>
  The parts of one column definition, as lines 221 to 229 build them from a row of
  \<open>PRAGMA table_info\<close>; the empty parts are left out.
\<close>

definition col_def :: "column_info \<Rightarrow> string list" where
  "col_def col =
     (let name = col_name col;
          typ = col_type col;
          notnull = (if col_notnull col then ''NOT NULL'' else []);
          dflt = (case col_dflt col of Some d \<Rightarrow> ''DEFAULT '' @ d | None \<Rightarrow> []);
          pk = (if col_pk col \<noteq> 0 then ''PRIMARY KEY'' else []);
          parts = [name, typ, notnull, dflt, pk]
      in filter (\<lambda>p. p \<noteq> []) parts)"

text \<open>
  \<open>drop_column_from_table\<close> (line 214). The five statements run on one connection,
  call 0 to call 4, and \<open>conn.commit()\<close> is call 5. \<open>rebuild_calls\<close> is lines 215 to
  238: the connection after the five statements, or after the first of them that
  raised, and that exception.
\<close>

definition rebuild_calls :: "(nat \<Rightarrow> string option) \<Rightarrow> database \<Rightarrow> string \<Rightarrow> string \<Rightarrow> connection \<times> py_error option" where
  "rebuild_calls fault db table column_to_drop =
     (let conn = sqlite3_connect db;
          columns_info = pragma_table_info (view conn) table;
          new_columns = filter (\<lambda>col. col_name col \<noteq> column_to_drop) columns_info;
          col_defs = map col_def new_columns;
          temp_table = table @ ''_backup'';
          col_names = map col_name new_columns
      in execute_all fault 0 conn
           [Begin_Transaction,
            Create_Table temp_table col_defs,
            Insert_Select temp_table col_names table,
            Drop_Table table,
            Rename_Table temp_table table])"

text \<open>
  When a call raises, the function is left at once. It has no \<open>try\<close>: on that path
  there is neither \<open>rollback\<close> nor \<open>close\<close>. Nothing was committed, so the file is what
  \<open>on_disk\<close> says; the connection stays open inside its transaction for as long as the
  interpreter keeps the object. The result of \<open>drop_column_from_table\<close> is the file
  after the call and the exception, if any; \<open>left_open\<close> is the connection that
  outlives the call, if any.
\<close>

definition drop_column_from_table :: "(nat \<Rightarrow> string option) \<Rightarrow> database \<Rightarrow> string \<Rightarrow> string \<Rightarrow> database \<times> py_error option" where
  "drop_column_from_table fault db table column_to_drop =
     (let (conn1, failure) = rebuild_calls fault db table column_to_drop
      in case failure of
           Some e \<Rightarrow> (on_disk conn1, Some e)
         | None \<Rightarrow>
             (case fault 5 of
                Some m \<Rightarrow> (on_disk conn1, Some (OperationalError m))
              | None \<Rightarrow> (on_disk (conn_commit conn1), None)))"

definition left_open :: "(nat \<Rightarrow> string option) \<Rightarrow> database \<Rightarrow> string \<Rightarrow> string \<Rightarrow> connection option" where
  "left_open fault db table column_to_drop =
     (let (conn1, failure) = rebuild_calls fault db table column_to_drop
      in case failure of
           Some e \<Rightarrow> Some conn1
         | None \<Rightarrow> (case fault 5 of Some m \<Rightarrow> Some conn1 | None \<Rightarrow> None))"

text \<open>\<open>HDRIInfoDialog.delete_tag\<close> (line 383): the exception is caught and printed.\<close>

datatype delete_result = Tag_Deleted | Delete_Failed string

definition delete_tag :: "(nat \<Rightarrow> string option) \<Rightarrow> database \<Rightarrow> string \<Rightarrow> database \<times> delete_result" where
  "delete_tag fault db column_name =
     (case drop_column_from_table fault db ''hdri'' column_name of
        (db', Some e) \<Rightarrow> (db', Delete_Failed (''Error deleting tag: '' @ error_text e))
      | (db', None) \<Rightarrow> (db', Tag_Deleted))"

subsection \<open>Adding a tag\<close>

text \<open>
  \<open>HDRIInfoDialog.add_new_tag\<close> (line 360) pastes the name of the column into the text
  of two statements, and SQLite reads that text word by word. A word is made of
  letters, digits, underscores, dollar signs and code points from 128 on, does not
  start with a digit or a dollar sign, and is a name unless it is a keyword. Words are
  separated by blanks: space, tab, line feed, form feed and carriage return.
\<close>

definition sqlite_space :: "char \<Rightarrow> bool" where
  "sqlite_space c = ((of_char c :: nat) \<in> {9, 10, 12, 13, 32})"

definition sqlite_name_char :: "char \<Rightarrow> bool" where
  "sqlite_name_char c = (ident_char c \<or> c = CHR ''$'' \<or> 128 \<le> (of_char c :: nat))"

definition sqlite_keywords :: "string list" where
  "sqlite_keywords =
     [''abort'', ''action'', ''add'', ''after'', ''all'', ''alter'', ''always'',
       ''analyze'', ''and'', ''as'', ''asc'', ''attach'', ''autoincrement'', ''before'',
       ''begin'', ''between'', ''by'', ''cascade'', ''case'', ''cast'', ''check'',
       ''collate'', ''column'', ''commit'', ''conflict'', ''constraint'', ''create'',
       ''cross'', ''current'', ''current_date'', ''current_time'', ''current_timestamp'',
       ''database'', ''default'', ''deferrable'', ''deferred'', ''delete'', ''desc'',
       ''detach'', ''distinct'', ''do'', ''drop'', ''each'', ''else'', ''end'', ''escape'',
       ''except'', ''exclude'', ''exclusive'', ''exists'', ''explain'', ''fail'',
       ''filter'', ''first'', ''following'', ''for'', ''foreign'', ''from'', ''full'',
       ''generated'', ''glob'', ''group'', ''groups'', ''having'', ''if'', ''ignore'',
       ''immediate'', ''in'', ''index'', ''indexed'', ''initially'', ''inner'', ''insert'',
       ''instead'', ''intersect'', ''into'', ''is'', ''isnull'', ''join'', ''key'',
       ''last'', ''left'', ''like'', ''limit'', ''match'', ''materialized'', ''natural'',
       ''no'', ''not'', ''nothing'', ''notnull'', ''null'', ''nulls'', ''of'', ''offset'',
       ''on'', ''or'', ''order'', ''others'', ''outer'', ''over'', ''partition'', ''plan'',
       ''pragma'', ''preceding'', ''primary'', ''query'', ''raise'', ''range'',
       ''recursive'', ''references'', ''regexp'', ''reindex'', ''release'', ''rename'',
       ''replace'', ''restrict'', ''returning'', ''right'', ''rollback'', ''row'', ''rows'',
       ''savepoint'', ''select'', ''set'', ''table'', ''temp'', ''temporary'', ''then'',
       ''ties'', ''to'', ''transaction'', ''trigger'', ''unbounded'', ''union'', ''unique'',
       ''update'', ''using'', ''vacuum'', ''values'', ''view'', ''virtual'', ''when'',
       ''where'', ''window'', ''with'', ''without'']"

definition sqlite_name :: "string \<Rightarrow> bool" where
  "sqlite_name s =
     (s \<noteq> [] \<and> list_all sqlite_name_char s \<and> hd s \<notin> set ''0123456789$''
      \<and> map sql_lower s \<notin> set sqlite_keywords)"

text \<open>The words of a text; \<open>word\<close> is the word read so far.\<close>

fun sqlite_words :: "string \<Rightarrow> string \<Rightarrow> string list" where
  "sqlite_words word [] = (if word = [] then [] else [word])"
| "sqlite_words word (c # cs) =
     (if sqlite_space c
      then (if word = [] then sqlite_words [] cs else word # sqlite_words [] cs)
      else sqlite_words (word @ [c]) cs)"

text \<open>
  \<open>add_new_tag\<close>, for the dialog of the record \<open>hdri_id\<close> and the text of the input
  field. In \<open>ALTER TABLE hdri ADD COLUMN column_name BOOLEAN DEFAULT 0\<close> the first word
  of \<open>column_name\<close> is the name of the new column, and what follows it, up to and with
  \<open>BOOLEAN\<close>, is its declared type. An exception of this statement is caught and
  printed. In \<open>UPDATE hdri SET column_name = 1 WHERE id = ?\<close> a second word in
  \<open>column_name\<close> stands where \<open>=\<close> must stand: the statement is refused at that
  word, and this exception is not caught (line 374). The result is the catalog after
  the call with what the call returned or raised. It is \<open>None\<close> where the embedding
  does not say what the statements mean: for a \<open>column_name\<close> with a word that is
  not a name.
\<close>

datatype tag_result = Nothing_Entered | Add_Failed string | Tag_Added

definition boolean_column :: "string \<Rightarrow> column_info" where
  "boolean_column n = (plain_column n ''BOOLEAN'')\<lparr>col_dflt := Some ''0''\<rparr>"

definition add_new_tag :: "database \<Rightarrow> int \<Rightarrow> string \<Rightarrow> (database \<times> (py_error + tag_result)) option" where
  "add_new_tag db hdri_id text =
     (let new_tag = py_strip text in
      if new_tag = [] then Some (db, Inr Nothing_Entered)
      else
        let column_name = safe_tag_column new_tag;
            words = sqlite_words [] column_name;
            first_word = takeWhile (\<lambda>c. \<not> sqlite_space c) column_name;
            after_it = dropWhile sqlite_space (dropWhile (\<lambda>c. \<not> sqlite_space c) column_name);
            new_column =
              (if after_it = [] then boolean_column first_word
               else (boolean_column first_word)\<lparr>col_type := after_it @ '' BOOLEAN''\<rparr>)
        in
        if \<not> list_all sqlite_name words then None
        else
          (case sql_add_column db ''hdri'' new_column of
             Inl e \<Rightarrow> Some (db, Inr (Add_Failed (''Error adding tag: '' @ error_text e)))
           | Inr db1 \<Rightarrow>
               if after_it \<noteq> []
               then Some (db1, Inl (OperationalError
                             (''near '' @ [CHR 0x22]
                              @ takeWhile (\<lambda>c. \<not> sqlite_space c) after_it
                              @ [CHR 0x22] @ '': syntax error'')))
               else
                 (case sql_update db1 ''hdri'' column_name (SInt 1) hdri_id of
                    Inl e \<Rightarrow> Some (db1, Inl e)
                  | Inr db2 \<Rightarrow> Some (db2, Inr Tag_Added))))"

subsection \<open>The query\<close>


subsection \<open>Ingesting and deleting\<close>

text \<open>
  The world of \<open>add_hdri\<close>: the catalog, the folders and files under the storage folder,
  and a clock. What the function reads from outside is the environment: the storage
  folder, \<open>compute_image_hash\<close> of a file (\<open>None\<close> when the hash cannot be computed),
  the text of the clock, and whether the folder can be made, the file copied and the
  preview written.
\<close>

record world =
  db :: database
  dirs :: "string list"
  files :: "string list"
  clock :: nat

record environment =
  HDRI_STORAGE_FOLDER :: string
  compute_image_hash :: "string \<Rightarrow> string option"
  isoformat :: "nat \<Rightarrow> string"
  makedirs_ok :: "string \<Rightarrow> bool"
  copy_ok :: "string \<Rightarrow> bool"
  preview_ok :: "string \<Rightarrow> bool"
  rmtree_ok :: "string \<Rightarrow> bool"

datatype ingest_result = Skipped string | Duplicate_Warning string | Ingested int

text \<open>\<open>SELECT id FROM hdri WHERE hash = ?\<close> and \<open>fetchone\<close>.\<close>

definition select_id_by_hash :: "database \<Rightarrow> string \<Rightarrow> py_error + sql_value option" where
  "select_id_by_hash d image_hash =
     (case get_table d ''hdri'' of
        None \<Rightarrow> Inl (OperationalError ''no such table: hdri'')
      | Some t \<Rightarrow>
          if \<not> has_column t ''hash'' then Inl (OperationalError ''no such column: hash'')
          else if \<not> has_column t ''id'' then Inl (OperationalError ''no such column: id'')
          else (case filter (\<lambda>r. row_get r ''hash'' = Some (SText image_hash)) (tbl_rows t) of
                  [] \<Rightarrow> Inr None
                | r # _ \<Rightarrow> Inr (Some (case row_get r ''id'' of Some v \<Rightarrow> v | None \<Rightarrow> SNull))))"

text \<open>
  The body of the loop of \<open>add_hdri\<close> (lines 584 to 620) for one file. The result is
  the world after it and what happened: a skipped file, the warning of a duplicate, the
  identifier of the new record, or the exception that ends the whole call.
\<close>

definition add_hdri_file :: "environment \<Rightarrow> world \<Rightarrow> string \<Rightarrow> world \<times> (py_error + ingest_result)" where
  "add_hdri_file env w file_path =
     (case compute_image_hash env file_path of
        None \<Rightarrow> (w, Inr (Skipped (''Skipping '' @ file_path @ '' due to hash error.'')))
      | Some image_hash \<Rightarrow>
          (case select_id_by_hash (db w) image_hash of
             Inl e \<Rightarrow> (w, Inl e)
           | Inr (Some _) \<Rightarrow>
               (w, Inr (Duplicate_Warning
                     (''Image '' @ basename file_path @ '' already exists in the database.'')))
           | Inr None \<Rightarrow>
               let hdri_name = fst (splitext (basename file_path));
                   current_date = isoformat env (clock w);
                   w1 = w\<lparr>clock := Suc (clock w)\<rparr>
               in (case sql_insert (db w1) ''hdri''
                          [(''file_path'', SText []), (''preview_path'', SText []),
                           (''name'', SText hdri_name), (''upload_date'', SText current_date),
                           (''hash'', SText image_hash)] of
                     Inl e \<Rightarrow> (w1, Inl e)
                   | Inr (db2, hdri_id) \<Rightarrow>
                       let w2 = w1\<lparr>db := db2\<rparr>;
                           folder_name = format_05d hdri_id @ ''_'' @ hdri_name;
                           hdri_folder = path_join (HDRI_STORAGE_FOLDER env) folder_name;
                           new_file_path = path_join hdri_folder (basename file_path);
                           preview_path = path_join hdri_folder ''preview.jpg''
                       in if \<not> makedirs_ok env hdri_folder
                          then (w2, Inl (OSError (''cannot create '' @ hdri_folder)))
                          else
                            let w3 = w2\<lparr>dirs := List.insert hdri_folder (dirs w2)\<rparr>
                            in if \<not> copy_ok env file_path
                               then (w3, Inl (OSError (''cannot copy '' @ file_path)))
                               else
                                 let w4 = w3\<lparr>files := List.insert new_file_path (files w3)\<rparr>;
                                     w5 = (if preview_ok env new_file_path
                                           then w4\<lparr>files := List.insert preview_path (files w4)\<rparr>
                                           else w4)
                                 in (case sql_update (db w5) ''hdri'' ''file_path''
                                            (SText new_file_path) hdri_id of
                                       Inl e \<Rightarrow> (w5, Inl e)
                                     | Inr db3 \<Rightarrow>
                                         (case sql_update db3 ''hdri'' ''preview_path''
                                                (SText preview_path) hdri_id of
                                            Inl e \<Rightarrow> (w5, Inl e)
                                          | Inr db4 \<Rightarrow> (w5\<lparr>db := db4\<rparr>, Inr (Ingested hdri_id)))))))"

text \<open>
  \<open>add_hdri\<close> (line 578) on the files chosen in the dialog: one after the other, until
  the list ends or an exception leaves the function.
\<close>

fun add_hdri :: "environment \<Rightarrow> world \<Rightarrow> string list \<Rightarrow> world \<times> ingest_result list \<times> py_error option" where
  "add_hdri env w [] = (w, [], None)"
| "add_hdri env w (file_path # file_paths) =
     (case add_hdri_file env w file_path of
        (w', Inl e) \<Rightarrow> (w', [], Some e)
      | (w', Inr res) \<Rightarrow>
          (case add_hdri env w' file_paths of
             (w'', results, failure) \<Rightarrow> (w'', res # results, failure)))"

text \<open>
  \<open>delete_hdri\<close> (line 624) after the answer to the question. The folder of the file
  is removed if it exists, then the row; an exception on the way is caught and shown.
\<close>

definition delete_hdri :: "environment \<Rightarrow> world \<Rightarrow> int \<Rightarrow> string \<Rightarrow> bool \<Rightarrow> world \<times> string option" where
  "delete_hdri env w hdri_id hdri_path yes =
     (if \<not> yes then (w, None)
      else
        let folder_to_delete = dirname hdri_path;
            there = (folder_to_delete \<in> set (dirs w) \<or> folder_to_delete \<in> set (files w))
        in if there \<and> \<not> rmtree_ok env folder_to_delete
           then (w, Some (''Error deleting HDRI: cannot remove '' @ folder_to_delete))
           else
             let w1 = (if there
                       then w\<lparr>dirs := filter (\<lambda>d. d \<noteq> folder_to_delete \<and>
                                            \<not> startswith d (folder_to_delete @ ''/'')) (dirs w),
                              files := filter (\<lambda>f. \<not> startswith f (folder_to_delete @ ''/''))
                                         (files w)\<rparr>
                       else w)
             in (case sql_delete (db w1) ''hdri'' hdri_id of
                   Inl e \<Rightarrow> (w1, Some (''Error deleting HDRI: '' @ error_text e))
                 | Inr db' \<Rightarrow> (w1\<lparr>db := db'\<rparr>, None)))"

section \<open>Catalogs as the operations make them\<close>

text \<open>
  The table \<open>hdri\<close> of a catalog has the six columns of \<open>initialize_database\<close>,
  followed by tag columns as \<open>add_new_tag\<close> adds them for names that are plain
  identifiers; the names of its columns differ,
  every row has one value for every column, no column but \<open>hash\<close> is UNIQUE, and there
  is no table \<open>hdri_backup\<close>.
\<close>

definition tag_column :: "column_info \<Rightarrow> bool" where
  "tag_column c =
     (c = boolean_column (col_name c) \<and> startswith (col_name c) ''tag_'' \<and> sql_ident (col_name c))"

definition wf_table :: "sql_table \<Rightarrow> bool" where
  "wf_table t =
     (take 6 (tbl_columns t) = hdri_columns \<and>
      list_all tag_column (drop 6 (tbl_columns t)) \<and>
      distinct_idents (map col_name (tbl_columns t)) \<and>
      list_all (\<lambda>r. map fst r = map col_name (tbl_columns t)) (tbl_rows t) \<and>
      list_all (\<lambda>u. u = ''hash'') (tbl_unique t))"

definition wf_catalog :: "database \<Rightarrow> bool" where
  "wf_catalog d =
     (case get_table d ''hdri'' of
        None \<Rightarrow> False
      | Some t \<Rightarrow> wf_table t \<and> get_table d ''hdri_backup'' = None)"

definition hdri_rows :: "database \<Rightarrow> sql_row list" where
  "hdri_rows d = (case get_table d ''hdri'' of None \<Rightarrow> [] | Some t \<Rightarrow> tbl_rows t)"

definition has_hash :: "string \<Rightarrow> sql_row \<Rightarrow> bool" where
  "has_hash h r = (row_get r ''hash'' = Some (SText h))"

definition no_fault :: "nat \<Rightarrow> string option" where
  "no_fault k = None"

text \<open>A column description that its definition, written out and read back, gives again.\<close>

definition readable :: "column_info \<Rightarrow> bool" where
  "readable c = (col_name c \<noteq> [] \<and> col_type c \<noteq> [] \<and> \<not> is_constraint (col_type c) \<and> col_pk c \<le> 1)"

section \<open>A small catalog\<close>

text \<open>
  Two records and the tag \<open>tag_sky\<close>, set on the first record: the catalog after two
  ingests and one \<open>add_new_tag\<close>.
\<close>

definition example_catalog :: database where
  "example_catalog =
     \<lparr>db_tables =
        [(''hdri'',
          \<lparr>tbl_columns = hdri_columns @ [boolean_column ''tag_sky''],
             tbl_rows =
               [[(''id'', SInt 1), (''file_path'', SText ''/s/00001_a/a.hdr''),
                 (''preview_path'', SText ''/s/00001_a/preview.jpg''), (''name'', SText ''a''),
                 (''upload_date'', SText ''d0''), (''hash'', SText ''f0''),
                 (''tag_sky'', SInt 1)],
                [(''id'', SInt 2), (''file_path'', SText ''/s/00002_b/b.png''),
                 (''preview_path'', SText ''/s/00002_b/preview.jpg''), (''name'', SText ''b''),
                 (''upload_date'', SText ''d1''), (''hash'', SText ''0f''),
                 (''tag_sky'', SInt 0)]],
             tbl_autoincrement = True, tbl_unique = [''hash'']\<rparr>)],
      db_sequence = [(''hdri'', 2)]\<rparr>"

text \<open>
  The world around the small catalog, and an environment in which every file operation
  succeeds, the file \<open>c.png\<close> has a hash that the catalog does not hold, and two
  files of the same name in different folders have the hashes of the two records.
\<close>

definition example_world :: world where
  "example_world =
     \<lparr>db = example_catalog,
      dirs = [''/s/00001_a'', ''/s/00002_b''],
      files = [''/s/00001_a/a.hdr'', ''/s/00001_a/preview.jpg'',
               ''/s/00002_b/b.png'', ''/s/00002_b/preview.jpg''],
      clock = 2\<rparr>"

definition example_env :: environment where
  "example_env =
     \<lparr>HDRI_STORAGE_FOLDER = ''/s'',
      compute_image_hash = (\<lambda>p. if p = ''c.png'' then Some ''3c''
                                 else if p = ''x/n.png'' then Some ''f0''
                                 else if p = ''y/n.png'' then Some ''0f'' else None),
      isoformat = (\<lambda>n. ''d'' @ show_nat n),
      makedirs_ok = (\<lambda>p. True),
      copy_ok = (\<lambda>p. True),
      preview_ok = (\<lambda>p. True),
      rmtree_ok = (\<lambda>p. True)\<rparr>"

definition copy_fails :: "environment \<Rightarrow> environment" where
  "copy_fails env = env\<lparr>copy_ok := (\<lambda>p. False)\<rparr>"

section \<open>The query in the words of the specification\<close>





section \<open>Properties\<close>

lemma np_size_rectangular: "rectangular m n a \<Longrightarrow> np_size a = m * n"
  unfolding rectangular_def np_size_def
proof (induction a arbitrary: m)
  case Nil
  then show ?case by simp
next
  case (Cons r a)
  then obtain m' where "m = Suc m'" by (cases m) auto
  with Cons show ?case by simp
qed

lemma square_neq: "(h::nat) \<noteq> k \<Longrightarrow> h * h \<noteq> k * k"
  by (metis nat_neq_iff mult_strict_mono' le0)

subsection \<open>Hamming distance of fingerprints of different dimensions\<close>

text \<open>
  Claim C7. For a fingerprint \<open>a\<close> of \<open>h\<close> by \<open>h\<close> bits and a fingerprint \<open>b\<close> of \<open>k\<close> by
  \<open>k\<close> bits, \<open>a - b\<close> raises \<open>TypeError\<close> when \<open>h\<close> and \<open>k\<close> differ, and is a number, the
  count of the positions where the two differ, when \<open>h\<close> and \<open>k\<close> are equal.
\<close>

theorem ImageHash_sub_dimensions:
  assumes a: "rectangular h h a" and b: "rectangular k k b"
  shows "(h \<noteq> k \<longrightarrow>
            ImageHash_sub a (Some b) = Inl (TypeError ''ImageHashes must be of the same size.''))
       \<and> (h = k \<longrightarrow>
            ImageHash_sub a (Some b) =
              Inr (count_nonzero (map2 (\<lambda>x y. x \<noteq> y) (flatten a) (flatten b))))"
proof -
  have "h \<noteq> k \<Longrightarrow> np_size a \<noteq> np_size b"
    using square_neq [of h k] by (simp add: np_size_rectangular [OF a] np_size_rectangular [OF b])
  moreover have "h = k \<Longrightarrow> np_size a = np_size b"
    by (simp add: np_size_rectangular [OF a] np_size_rectangular [OF b])
  ultimately show ?thesis
    by (auto simp: ImageHash_sub_def)
qed

text \<open>
  The theorem at a 2 by 2 fingerprint against a 3 by 3 one, and against another 2 by 2
  one that differs from it in one bit.
\<close>

theorem ImageHash_sub_dimensions_witness:
  "rectangular 2 2 [[False, True], [False, False]]
   \<and> rectangular 3 3 [[False, True, False], [False, False, False], [True, False, False]]
   \<and> ImageHash_sub [[False, True], [False, False]]
        (Some [[False, True, False], [False, False, False], [True, False, False]]) =
       Inl (TypeError ''ImageHashes must be of the same size.'')
   \<and> rectangular 2 2 [[False, True], [True, False]]
   \<and> ImageHash_sub [[False, True], [False, False]] (Some [[False, True], [True, False]]) = Inr 1"
  using ImageHash_sub_dimensions [of 2 "[[False, True], [False, False]]" 3
      "[[False, True, False], [False, False, False], [True, False, False]]"]
    ImageHash_sub_dimensions [of 2 "[[False, True], [False, False]]" 2
      "[[False, True], [True, False]]"]
  by (simp add: rectangular_def flatten_def count_nonzero_def)

subsection \<open>The bits of the fingerprint\<close>

lemma rectangular_top_left:
  "rectangular m n a \<Longrightarrow> h \<le> m \<Longrightarrow> h \<le> n \<Longrightarrow> rectangular h h (top_left h a)"
  by (auto simp: rectangular_def top_left_def list_all_iff dest: in_set_takeD)

lemma top_left_nth:
  "rectangular m n a \<Longrightarrow> h \<le> m \<Longrightarrow> h \<le> n \<Longrightarrow> i < h \<Longrightarrow> j < h \<Longrightarrow>
   top_left h a ! i ! j = a ! i ! j"
  by (simp add: rectangular_def top_left_def)

lemma threshold_value:
  assumes r: "rectangular h h low" and h: "0 < h"
  shows "\<exists>bits. (case map (map f) low of
             [] \<Rightarrow> Inl e1
           | r # rs \<Rightarrow> (case r of [] \<Rightarrow> Inl e2 | b # bs \<Rightarrow> Inr ((False # bs) # rs))) = Inr bits
         \<and> rectangular h h bits \<and> bits ! 0 ! 0 = False
         \<and> (\<forall>i<h. \<forall>j<h. (i, j) \<noteq> (0, 0) \<longrightarrow> bits ! i ! j = f (low ! i ! j))"
proof -
  from r h obtain r0 rs where low: "low = r0 # rs" by (cases low) (auto simp: rectangular_def)
  with r h obtain x xs where r0: "r0 = x # xs" by (cases r0) (auto simp: rectangular_def)
  let ?bits = "(False # map f xs) # map (map f) rs"
  have "rectangular h h ?bits" using r low r0 by (auto simp: rectangular_def list_all_iff)
  moreover have "\<forall>i<h. \<forall>j<h. (i, j) \<noteq> (0, 0) \<longrightarrow> ?bits ! i ! j = f (low ! i ! j)"
  proof (intro allI impI)
    fix i j assume i: "i < h" and j: "j < h" and n: "(i, j) \<noteq> (0, 0)"
    show "?bits ! i ! j = f (low ! i ! j)"
    proof (cases i)
      case 0
      with n obtain j' where "j = Suc j'" by (cases j) auto
      with 0 j r low r0 show ?thesis by (simp add: rectangular_def)
    next
      case (Suc i')
      with i j r low have "i' < length rs" "j < length (rs ! i')"
        by (auto simp: rectangular_def list_all_length)
      with Suc low show ?thesis by simp
    qed
  qed
  ultimately show ?thesis using low r0 by simp
qed

lemma rectangular_dct_2d:
  assumes r: "rectangular m n pixels" and m: "0 < m"
  shows "rectangular m n (dct_2d ar pixels)"
proof -
  from r m have "(case pixels of [] \<Rightarrow> 0 | r # _ \<Rightarrow> length r) = n"
    by (cases pixels) (auto simp: rectangular_def)
  with r show ?thesis
    by (simp add: dct_2d_def Let_def rectangular_def list_all_iff)
qed

lemma map_nth_tail: "map (\<lambda>j. (x # xs) ! j) [Suc 0..<Suc (length xs)] = xs"
proof -
  have "map (\<lambda>j. (x # xs) ! j) [Suc 0..<Suc (length xs)] = map (\<lambda>j. (x # xs) ! Suc j) [0..<length xs]"
    by (simp only: map_Suc_upt [symmetric] list.map_comp comp_def)
  also have "\<dots> = xs" by (simp add: map_nth)
  finally show ?thesis .
qed

lemma rows_from_nth:
  assumes "list_all (\<lambda>r. length r = h) rs"
  shows "map (\<lambda>i. map (\<lambda>j. (r0 # rs) ! i ! j) [0..<h]) [Suc 0..<Suc (length rs)] = rs"
proof -
  have "map (\<lambda>i. map (\<lambda>j. (r0 # rs) ! i ! j) [0..<h]) [Suc 0..<Suc (length rs)]
        = map (\<lambda>i. map (\<lambda>j. rs ! i ! j) [0..<h]) [0..<length rs]"
    by (simp only: map_Suc_upt [symmetric] list.map_comp comp_def nth_Cons_Suc)
  also have "\<dots> = map (\<lambda>i. rs ! i) [0..<length rs]"
  proof (rule map_cong [OF refl])
    fix i assume "i \<in> set [0..<length rs]"
    with assms have "length (rs ! i) = h" by (simp add: list_all_length)
    then show "map (\<lambda>j. rs ! i ! j) [0..<h] = rs ! i" using map_nth [of "rs ! i"] by simp
  qed
  also have "\<dots> = rs" by (rule map_nth)
  finally show ?thesis .
qed

lemma drop1_flatten:
  assumes r: "rectangular h h low" and h: "0 < h"
  shows "drop 1 (flatten low) = coefficients_without_dc low h"
proof -
  from r h obtain r0 rs where low: "low = r0 # rs" by (cases low) (auto simp: rectangular_def)
  with r h obtain x xs where r0: "r0 = x # xs" by (cases r0) (auto simp: rectangular_def)
  from r low r0 have lx: "h = Suc (length xs)" and lr: "h = Suc (length rs)"
    and all: "list_all (\<lambda>r. length r = h) rs"
    by (auto simp: rectangular_def)
  have up: "[0..<h] = 0 # [Suc 0..<h]" using h by (simp add: upt_conv_Cons)
  have f0: "filter (\<lambda>j. (0::nat, j) \<noteq> (0, 0)) [0..<h] = [Suc 0..<h]"
    unfolding up by (simp add: filter_id_conv)
  define g where "g = (\<lambda>i. map (\<lambda>j. low ! i ! j) (filter (\<lambda>j. (i, j) \<noteq> (0, 0)) [0..<h]))"
  have first: "g 0 = xs"
    unfolding g_def f0 low r0 using map_nth_tail [of x xs] lx by simp
  have others: "map g [Suc 0..<h] = rs"
  proof -
    have "map g [Suc 0..<h] = map (\<lambda>i. map (\<lambda>j. low ! i ! j) [0..<h]) [Suc 0..<h]"
      unfolding g_def by (rule map_cong [OF refl]) (simp add: filter_id_conv)
    also have "\<dots> = rs" unfolding low using rows_from_nth [OF all, of r0] lr by simp
    finally show ?thesis .
  qed
  have "coefficients_without_dc low h = concat (map g [0..<h])"
    by (simp add: coefficients_without_dc_def g_def)
  also have "\<dots> = concat (g 0 # map g [Suc 0..<h])"
    by (subst up) simp
  also have "\<dots> = xs @ concat rs"
    by (simp only: concat.simps first others)
  finally have "coefficients_without_dc low h = xs @ concat rs" .
  moreover have "drop 1 (flatten low) = xs @ concat rs"
    by (simp add: flatten_def low r0)
  ultimately show ?thesis by simp
qed

lemma coefficients_top_left:
  assumes r: "rectangular m n a" and h: "h \<le> m" "h \<le> n"
  shows "coefficients_without_dc (top_left h a) h = coefficients_without_dc a h"
  unfolding coefficients_without_dc_def
  by (intro arg_cong [where f = concat] map_cong refl) (simp add: top_left_nth [OF r h])

lemma cos_three_quarters: "cos (pi * 3 / 4) = - (sqrt 2 / 2)"
proof -
  have "pi * 3 / 4 = pi - pi / 4" by simp
  then show ?thesis by (simp only: cos_pi_minus cos_45)
qed

lemma exact_cos_term_0: "np_cos_term exact_arithmetic n 0 N = 1"
  by (simp add: exact_arithmetic_def)

lemma exact_cos_term_2:
  "np_cos_term exact_arithmetic 0 (Suc 0) 2 = sqrt 2 / 2"
  "np_cos_term exact_arithmetic (Suc 0) (Suc 0) 2 = - (sqrt 2 / 2)"
proof -
  have "pi * (real 0 + 0.5) * real (Suc 0) / real 2 = pi / 4" by simp
  then show "np_cos_term exact_arithmetic 0 (Suc 0) 2 = sqrt 2 / 2"
    by (simp add: exact_arithmetic_def cos_45)
  have "pi * (real (Suc 0) + 0.5) * real (Suc 0) / real 2 = pi * 3 / 4" by simp
  then show "np_cos_term exact_arithmetic (Suc 0) (Suc 0) 2 = - (sqrt 2 / 2)"
    using cos_three_quarters by (simp add: exact_arithmetic_def)
qed

lemma dct_1d_pair:
  "dct_1d exact_arithmetic [a, b] = [(a + b) / sqrt 2, (a - b) / sqrt 2]"
proof -
  have u: "[0..<2] = [0, Suc 0]" by (simp add: upt_conv_Cons)
  have s: "sqrt 2 / 2 = 1 / sqrt 2" by (simp add: real_div_sqrt)
  show ?thesis
    unfolding dct_1d_def Let_def
    apply (simp add: u exact_cos_term_0 exact_cos_term_2 numeral_2_eq_2 [symmetric])
    apply (simp add: exact_arithmetic_def real_sqrt_divide s field_simps)
    done
qed

lemma dct_2d_example:
  "dct_2d exact_arithmetic [[4, 2], [1, 3]] = [[5, 0], [1, 2]]"
proof -
  have u: "[0..<2] = [0, Suc 0]" by (simp add: upt_conv_Cons)
  show ?thesis
    unfolding dct_2d_def Let_def
    by (simp add: u column_def dct_1d_pair numeral_2_eq_2 [symmetric] field_simps)
qed

lemma phash_example:
  "phash exact_arithmetic [[4, 2], [1, 3]] 2 = Inr [[False, False], [False, True]]"
  unfolding phash_def dct_2d_example
  by (simp add: phash_threshold_def top_left_def flatten_def exact_arithmetic_def)

text \<open>
  Claim C2. For a grid of pixels with at least \<open>h\<close> rows and \<open>h\<close> columns (\<open>h\<close>
  positive), \<open>phash\<close> returns an \<open>h\<close> by \<open>h\<close> array of bits. The bit at \<open>(0, 0)\<close> is 0.
  Every other bit at \<open>(i, j)\<close> is 1 exactly when the DCT coefficient at \<open>(i, j)\<close> is
  greater (\<open>>\<close>) than the mean, as \<open>np.mean\<close> computes it, of the top-left \<open>h\<close> by \<open>h\<close>
  coefficients without the one at \<open>(0, 0)\<close>. This holds whatever the floating-point
  operations round to.
\<close>

theorem phash_bits:
  assumes r: "rectangular m n pixels" and h: "0 < h" "h \<le> m" "h \<le> n"
  shows "\<exists>bits. phash ar pixels h = Inr bits \<and> rectangular h h bits \<and> bits ! 0 ! 0 = False
     \<and> (\<forall>i<h. \<forall>j<h. (i, j) \<noteq> (0, 0) \<longrightarrow>
            bits ! i ! j =
              fl_gt ar (dct_2d ar pixels ! i ! j)
                (np_mean ar (coefficients_without_dc (dct_2d ar pixels) h)))"
proof -
  define dct where "dct = dct_2d ar pixels"
  let ?low = "top_left h dct"
  let ?avg = "np_mean ar (drop 1 (flatten ?low))"
  from h have m: "0 < m" by simp
  have rd: "rectangular m n dct" unfolding dct_def by (rule rectangular_dct_2d [OF r m])
  have rl: "rectangular h h ?low" by (rule rectangular_top_left [OF rd h(2,3)])
  have "\<exists>bits. phash_threshold ar dct h = Inr bits \<and> rectangular h h bits \<and> bits ! 0 ! 0 = False
     \<and> (\<forall>i<h. \<forall>j<h. (i, j) \<noteq> (0, 0) \<longrightarrow> bits ! i ! j = fl_gt ar (?low ! i ! j) ?avg)"
    unfolding phash_threshold_def Let_def
    by (rule threshold_value [OF rl h(1)])
  then obtain bits where b: "phash_threshold ar dct h = Inr bits" "rectangular h h bits"
      "bits ! 0 ! 0 = False"
      "\<forall>i<h. \<forall>j<h. (i, j) \<noteq> (0, 0) \<longrightarrow> bits ! i ! j = fl_gt ar (?low ! i ! j) ?avg"
    by (elim exE conjE)
  have avg: "?avg = np_mean ar (coefficients_without_dc dct h)"
    using drop1_flatten [OF rl h(1)] coefficients_top_left [OF rd h(2,3)] by simp
  have "\<forall>i<h. \<forall>j<h. (i, j) \<noteq> (0, 0) \<longrightarrow>
          bits ! i ! j = fl_gt ar (dct ! i ! j) (np_mean ar (coefficients_without_dc dct h))"
  proof (intro allI impI)
    fix i j assume i: "i < h" and j: "j < h" and n: "(i, j) \<noteq> (0, 0)"
    from b(4) i j n have "bits ! i ! j = fl_gt ar (?low ! i ! j) ?avg" by blast
    with avg top_left_nth [OF rd h(2,3) i j]
    show "bits ! i ! j = fl_gt ar (dct ! i ! j) (np_mean ar (coefficients_without_dc dct h))"
      by simp
  qed
  with b(1,2,3) have "\<exists>bits. phash_threshold ar dct h = Inr bits \<and> rectangular h h bits
     \<and> bits ! 0 ! 0 = False
     \<and> (\<forall>i<h. \<forall>j<h. (i, j) \<noteq> (0, 0) \<longrightarrow>
          bits ! i ! j = fl_gt ar (dct ! i ! j) (np_mean ar (coefficients_without_dc dct h)))"
    by (intro exI conjI)
  then show ?thesis unfolding phash_def dct_def .
qed

text \<open>
  The theorem in exact arithmetic at a 2 by 2 grid: the coefficients are 5, 0, 1 and 2,
  the mean of the last three is 1, and only the coefficient 2 is greater.
\<close>

theorem phash_bits_witness:
  "rectangular 2 2 [[4, 2], [1, 3 :: real]]
   \<and> dct_2d exact_arithmetic [[4, 2], [1, 3]] = [[5, 0], [1, 2]]
   \<and> np_mean exact_arithmetic (coefficients_without_dc [[5, 0], [1, 2 :: real]] 2) = 1
   \<and> phash exact_arithmetic [[4, 2], [1, 3]] 2 = Inr [[False, False], [False, True]]"
proof -
  have r: "rectangular 2 2 [[4, 2], [1, 3 :: real]]"
    by (simp add: rectangular_def)
  have u: "[0..<2] = [0, Suc 0]" by (simp add: upt_conv_Cons)
  have m: "np_mean exact_arithmetic (coefficients_without_dc [[5, 0], [1, 2 :: real]] 2) = 1"
    by (simp add: coefficients_without_dc_def exact_arithmetic_def u)
  have "\<exists>bits. phash exact_arithmetic [[4, 2], [1, 3]] 2 = Inr bits \<and> rectangular 2 2 bits
      \<and> bits ! 0 ! 0 = False
      \<and> (\<forall>i<2. \<forall>j<2. (i, j) \<noteq> (0, 0) \<longrightarrow>
            bits ! i ! j =
              fl_gt exact_arithmetic (dct_2d exact_arithmetic [[4, 2], [1, 3]] ! i ! j)
                (np_mean exact_arithmetic
                   (coefficients_without_dc (dct_2d exact_arithmetic [[4, 2], [1, 3]]) 2)))"
    by (rule phash_bits [OF r]) simp_all
  with r m dct_2d_example phash_example show ?thesis by - (intro conjI; assumption)
qed

lemma ident_eq_refl [simp]: "ident_eq a a"
  by (simp add: ident_eq_def)

lemma ident_eq_sym: "ident_eq a b = ident_eq b a"
  by (auto simp: ident_eq_def)

lemma get_table_set_table:
  "get_table (set_table d n t) m =
     (if m = n \<and> get_table d n \<noteq> None then Some t else get_table d m)"
proof -
  have "\<And>ts. map_of (map (\<lambda>(k, old). if k = n then (k, t) else (k, old)) ts) m =
      (if m = n \<and> map_of ts n \<noteq> None then Some t else map_of ts m)"
  proof -
    fix ts :: "(string \<times> sql_table) list"
    show "map_of (map (\<lambda>(k, old). if k = n then (k, t) else (k, old)) ts) m =
      (if m = n \<and> map_of ts n \<noteq> None then Some t else map_of ts m)"
      by (induction ts) auto
  qed
  then show ?thesis by (simp add: get_table_def set_table_def)
qed

lemma row_get_distinct:
  "distinct_idents (map fst r) \<Longrightarrow> (k, v) \<in> set r \<Longrightarrow> row_get r k = Some v"
proof (induction r)
  case Nil
  then show ?case by simp
next
  case (Cons a r)
  obtain k' v' where a: "a = (k', v')" by (cases a)
  show ?case
  proof (cases "(k, v) = a")
    case True
    with a show ?thesis by simp
  next
    case False
    with Cons.prems have in_r: "(k, v) \<in> set r" by simp
    then have "k \<in> set (map fst r)" by force
    with Cons.prems a have "\<not> ident_eq k' k"
      by (auto simp: list_ex_iff)
    with Cons a in_r show ?thesis by simp
  qed
qed

lemma project_row:
  assumes d: "distinct_idents (map fst r)" and k: "map fst r = map col_name cols"
  shows "map (\<lambda>col. (col_name col, case row_get r (col_name col) of Some v \<Rightarrow> v | None \<Rightarrow> SNull))
           (filter (\<lambda>col. col_name col \<noteq> c) cols)
         = filter (\<lambda>(k, v). k \<noteq> c) r"
proof -
  let ?f = "\<lambda>n. (n, case row_get r n of Some v \<Rightarrow> v | None \<Rightarrow> SNull)"
  have "map (\<lambda>col. ?f (col_name col)) (filter (\<lambda>col. col_name col \<noteq> c) cols)
        = map ?f (filter (\<lambda>n. n \<noteq> c) (map col_name cols))"
    by (simp add: filter_map comp_def)
  also have "\<dots> = map ?f (filter (\<lambda>n. n \<noteq> c) (map fst r))"
    by (simp add: k)
  also have "\<dots> = map (\<lambda>p. ?f (fst p)) (filter (\<lambda>(k, v). k \<noteq> c) r)"
    by (simp add: filter_map comp_def case_prod_unfold)
  also have "\<dots> = map (\<lambda>p. p) (filter (\<lambda>(k, v). k \<noteq> c) r)"
  proof (rule map_cong [OF refl])
    fix p assume "p \<in> set (filter (\<lambda>(k, v). k \<noteq> c) r)"
    then have "p \<in> set r" by simp
    then have "row_get r (fst p) = Some (snd p)"
      using row_get_distinct [OF d, of "fst p" "snd p"] by simp
    then show "?f (fst p) = p" by simp
  qed
  finally show ?thesis by simp
qed

lemma read_col_def_col_def:
  assumes "col_name c \<noteq> []" "col_type c \<noteq> []" "\<not> is_constraint (col_type c)" "col_pk c \<le> 1"
  shows "read_col_def (col_def c) = Some c"
proof -
  obtain n t nn d pk where c: "c = \<lparr>col_name = n, col_type = t, col_notnull = nn, col_dflt = d, col_pk = pk\<rparr>"
    by (cases c) auto
  from assms c have pk: "pk = 0 \<or> pk = 1" by auto
  from assms c show ?thesis
    using pk
    by (cases d; cases nn)
       (auto simp: col_def_def read_col_def_def plain_column_def is_constraint_def Let_def)
qed

lemma execute_all_in_transaction:
  "in_transaction conn \<Longrightarrow> execute_all io k conn sts = (conn', r) \<Longrightarrow>
   on_disk conn' = on_disk conn \<and> in_transaction conn'"
proof (induction sts arbitrary: conn k)
  case Nil
  then show ?case by simp
next
  case (Cons st sts)
  show ?case
  proof (cases "cursor_execute io k conn st")
    case (Inl e)
    with Cons.prems show ?thesis by simp
  next
    case (Inr c1)
    with Cons.prems(1) have c1: "in_transaction c1" "on_disk c1 = on_disk conn"
      by (auto simp: cursor_execute_def split: if_splits sum.splits option.splits)
    from Inr Cons.prems(2) have "execute_all io (Suc k) c1 sts = (conn', r)" by simp
    from Cons.IH [OF c1(1) this] c1(2) show ?thesis by simp
  qed
qed

lemma execute_all_from_begin:
  assumes "execute_all io 0 (sqlite3_connect d) (Begin_Transaction # sts) = (conn', r)"
  shows "on_disk conn' = d"
proof (cases "cursor_execute io 0 (sqlite3_connect d) Begin_Transaction")
  case (Inl e)
  with assms show ?thesis by (auto simp: sqlite3_connect_def)
next
  case (Inr c1)
  then have c1: "in_transaction c1" "on_disk c1 = d"
    by (auto simp: cursor_execute_def sqlite3_connect_def split: if_splits option.splits)
  from Inr assms have "execute_all io (Suc 0) c1 sts = (conn', r)" by simp
  from execute_all_in_transaction [OF c1(1) this] c1(2) show ?thesis by simp
qed

lemma drop_column_failure:
  assumes "drop_column_from_table io d table c = (d', Some e)"
  shows "d' = d"
proof -
  let ?cols = "filter (\<lambda>col. col_name col \<noteq> c) (pragma_table_info (view (sqlite3_connect d)) table)"
  let ?sts = "[Create_Table (table @ ''_backup'') (map col_def ?cols),
               Insert_Select (table @ ''_backup'') (map col_name ?cols) table,
               Drop_Table table, Rename_Table (table @ ''_backup'') table]"
  obtain conn1 r where ex: "execute_all io 0 (sqlite3_connect d) (Begin_Transaction # ?sts) = (conn1, r)"
    by (cases "execute_all io 0 (sqlite3_connect d) (Begin_Transaction # ?sts)")
  from execute_all_from_begin [OF ex] have disk: "on_disk conn1 = d" .
  from assms ex disk show ?thesis
    unfolding drop_column_from_table_def rebuild_calls_def Let_def
    by (auto split: option.splits if_splits)
qed

lemma execute_all_fault:
  "k \<le> j \<Longrightarrow> j < k + length sts \<Longrightarrow> io j = Some m \<Longrightarrow>
   \<exists>c e. execute_all io k conn sts = (c, Some e)"
proof (induction sts arbitrary: conn k)
  case Nil
  then show ?case by simp
next
  case (Cons st sts)
  show ?case
  proof (cases "cursor_execute io k conn st")
    case (Inl e)
    then show ?thesis by simp
  next
    case (Inr c1)
    have "k \<noteq> j" using Inr Cons.prems(3) by (auto simp: cursor_execute_def)
    with Cons.prems have "Suc k \<le> j" "j < Suc k + length sts" by auto
    from Cons.IH [OF this Cons.prems(3)] Inr show ?thesis by simp
  qed
qed

lemma drop_column_fault:
  assumes "j \<le> 5" "io j = Some m"
  shows "\<exists>e. drop_column_from_table io d table c = (d, Some e)"
proof -
  let ?r = "drop_column_from_table io d table c"
  have "\<exists>e. snd ?r = Some e"
  proof (cases "j = 5")
    case True
    with assms show ?thesis
      unfolding drop_column_from_table_def rebuild_calls_def Let_def
      by (auto split: prod.splits option.splits)
  next
    case False
    let ?cols = "filter (\<lambda>col. col_name col \<noteq> c) (pragma_table_info (view (sqlite3_connect d)) table)"
    let ?sts = "[Begin_Transaction, Create_Table (table @ ''_backup'') (map col_def ?cols),
               Insert_Select (table @ ''_backup'') (map col_name ?cols) table,
               Drop_Table table, Rename_Table (table @ ''_backup'') table]"
    from False assms have j: "j < 0 + length ?sts" by auto
    have "\<exists>c e. execute_all io 0 (sqlite3_connect d) ?sts = (c, Some e)"
      using execute_all_fault [where k = 0 and j = j and io = io and sts = ?sts
          and conn = "sqlite3_connect d"] j assms(2)
      by simp
    then obtain c1 e where "execute_all io 0 (sqlite3_connect d) ?sts = (c1, Some e)" by blast
    then show ?thesis
      unfolding drop_column_from_table_def rebuild_calls_def Let_def by simp
  qed
  then obtain e where "snd ?r = Some e" ..
  then have "?r = (fst ?r, Some e)" by (cases ?r) auto
  with drop_column_failure [of io d table c "fst ?r" e] show ?thesis by auto
qed

lemma get_table_create:
  "get_table d n = None \<Longrightarrow>
   get_table (d\<lparr>db_tables := db_tables d @ [(n, t)]\<rparr>) m =
     (if m = n then Some t else get_table d m)"
  by (auto simp: get_table_def map_add_def split: option.splits)

lemma map_of_filter_key:
  "map_of (filter (\<lambda>(n, _). n \<noteq> a) ts) m = (if m = a then None else map_of ts m)"
  by (induction ts) auto

lemma map_of_rename_key:
  "map_of ts new = None \<Longrightarrow>
   map_of (map (\<lambda>(n, t). if n = old then (new, t) else (n, t)) ts) m =
     (if m = new then map_of ts old else if m = old then None else map_of ts m)"
  by (induction ts) (auto split: if_splits)

lemma get_table_drop:
  "get_table d n \<noteq> None \<Longrightarrow> \<exists>d'. sql_drop_table d n = Inr d' \<and>
     (\<forall>m. get_table d' m = (if m = n then None else get_table d m))"
  by (simp add: sql_drop_table_def get_table_def map_of_filter_key)

lemma get_table_rename:
  "get_table d old \<noteq> None \<Longrightarrow> get_table d new = None \<Longrightarrow>
   \<exists>d'. sql_rename_table d old new = Inr d' \<and>
     (\<forall>m. get_table d' m =
        (if m = new then get_table d old else if m = old then None else get_table d m))"
  by (simp add: sql_rename_table_def get_table_def map_of_rename_key)

lemma readable_hdri_columns: "list_all readable hdri_columns"
  by (simp add: hdri_columns_def readable_def plain_column_def is_constraint_def)

lemma readable_tag_column: "tag_column c \<Longrightarrow> readable c"
proof -
  assume t: "tag_column c"
  then have c: "c = boolean_column (col_name c)" and i: "sql_ident (col_name c)"
    by (auto simp: tag_column_def)
  from i have n: "col_name c \<noteq> []" by (simp add: sql_ident_def)
  have "col_type (boolean_column (col_name c)) = ''BOOLEAN''"
       "col_pk (boolean_column (col_name c)) = 0"
    by (simp_all add: boolean_column_def plain_column_def)
  with c have "col_type c = ''BOOLEAN''" "col_pk c = 0" by simp_all
  with n show ?thesis by (simp add: readable_def is_constraint_def)
qed

lemma distinct_idents_filter: "distinct_idents ns \<Longrightarrow> distinct_idents (filter P ns)"
  by (induction ns) (auto simp: list_ex_iff)

lemma wf_catalogD:
  assumes "wf_catalog d"
  obtains t tags where "get_table d ''hdri'' = Some t" "tbl_columns t = hdri_columns @ tags"
    "list_all tag_column tags" "distinct_idents (map col_name (tbl_columns t))"
    "list_all (\<lambda>r. map fst r = map col_name (tbl_columns t)) (tbl_rows t)"
    "get_table d ''hdri_backup'' = None"
    "list_all (\<lambda>u. u = ''hash'') (tbl_unique t)"
proof -
  from assms obtain t where t: "get_table d ''hdri'' = Some t"
    by (auto simp: wf_catalog_def split: option.splits)
  with assms have w: "take 6 (tbl_columns t) = hdri_columns"
    "list_all tag_column (drop 6 (tbl_columns t))"
    "distinct_idents (map col_name (tbl_columns t))"
    "list_all (\<lambda>r. map fst r = map col_name (tbl_columns t)) (tbl_rows t)"
    "get_table d ''hdri_backup'' = None"
    "list_all (\<lambda>u. u = ''hash'') (tbl_unique t)"
    by (auto simp: wf_catalog_def wf_table_def)
  have "tbl_columns t = hdri_columns @ drop 6 (tbl_columns t)"
    using w(1) append_take_drop_id [of 6 "tbl_columns t"] by simp
  with t w that show ?thesis by blast
qed

lemma startswith_tag_not_id: "startswith c ''tag_'' \<Longrightarrow> c \<noteq> ''id''"
  by (auto simp: startswith_def)

lemma has_column_member:
  "n \<in> set (map col_name (tbl_columns t)) \<Longrightarrow> has_column t n"
proof -
  assume "n \<in> set (map col_name (tbl_columns t))"
  then obtain x where x: "x \<in> set (tbl_columns t)" "col_name x = n" by auto
  have "ident_eq (col_name x) n" using x(2) by (simp add: ident_eq_def)
  with x(1) have "\<exists>c\<in>set (tbl_columns t). ident_eq (col_name c) n" by (rule bexI [rotated])
  then show ?thesis by (simp add: has_column_def list_ex_iff)
qed

lemma tag_column_pk: "tag_column c \<Longrightarrow> col_pk c = 0"
proof -
  assume "tag_column c"
  then have c: "c = boolean_column (col_name c)" by (simp add: tag_column_def)
  have "col_pk (boolean_column (col_name c)) = 0"
    by (simp add: boolean_column_def plain_column_def)
  with c show ?thesis by simp
qed

lemma tags_no_pk: "list_all tag_column tags \<Longrightarrow> filter (\<lambda>c. col_pk c \<noteq> 0) tags = []"
  by (simp add: filter_empty_conv list_all_iff tag_column_pk)

lemma length_filter_filter_le: "length (filter P (filter Q xs)) \<le> length (filter P xs)"
  by (induction xs) auto

lemma hdri_columns_pk: "length (filter (\<lambda>c. col_pk c \<noteq> 0) hdri_columns) = 1"
  by (simp add: hdri_columns_def plain_column_def)

lemma create_backup:
  assumes nobk: "get_table d bk = None"
    and ne: "nc \<noteq> []"
    and rd: "list_all readable nc"
    and dist: "distinct_idents (map col_name nc)"
    and pk: "length (filter (\<lambda>c. col_pk c \<noteq> 0) nc) \<le> 1"
  shows "sql_create_table d bk (map col_def nc) =
     Inr (d\<lparr>db_tables := db_tables d @
            [(bk, \<lparr>tbl_columns = nc, tbl_rows = [], tbl_autoincrement = False, tbl_unique = []\<rparr>)]\<rparr>)"
proof -
  have each: "\<And>col. col \<in> set nc \<Longrightarrow> read_col_def (col_def col) = Some col"
    using rd by (auto simp: list_all_iff readable_def intro: read_col_def_col_def)
  have read_all: "map (\<lambda>d. the (read_col_def d)) (map col_def nc) = nc"
    unfolding map_map by (rule map_idI) (simp add: each)
  have no_bad: "\<not> list_ex (\<lambda>d. read_col_def d = None) (map col_def nc)"
    using each by (auto simp: list_ex_iff)
  from pk have pk': "\<not> 1 < length (filter (\<lambda>c. col_pk c \<noteq> 0) nc)" by simp
  have ne': "map col_def nc \<noteq> []" using ne by simp
  show ?thesis
    unfolding sql_create_table_def Let_def read_all
    using nobk ne' no_bad dist pk' by (simp only: if_True if_False not_not simp_thms)
qed

lemma copy_into_backup:
  assumes dst: "get_table d1 bk = Some nt"
    and nt: "tbl_columns nt = filter (\<lambda>col. col_name col \<noteq> c) (tbl_columns t)" "tbl_rows nt = []"
    and src: "get_table d1 src = Some t"
    and ne: "tbl_columns nt \<noteq> []"
    and dist: "distinct_idents (map col_name (tbl_columns t))"
    and rows: "list_all (\<lambda>r. map fst r = map col_name (tbl_columns t)) (tbl_rows t)"
  shows "sql_insert_select d1 bk (map col_name (tbl_columns nt)) src =
     Inr (set_table d1 bk (nt\<lparr>tbl_rows := map (filter (\<lambda>(k, v). k \<noteq> c)) (tbl_rows t)\<rparr>))"
proof -
  let ?nc = "tbl_columns nt"
  let ?names = "map col_name ?nc"
  have sub: "set ?names \<subseteq> set (map col_name (tbl_columns t))"
    by (auto simp: nt(1))
  have cols_ok: "\<not> list_ex (\<lambda>n. \<not> has_column nt n \<or> \<not> has_column t n) ?names"
    unfolding list_ex_iff using has_column_member [of _ nt] has_column_member [of _ t] sub
    by blast
  have named: "\<And>col. col \<in> set ?nc \<Longrightarrow> list_ex (ident_eq (col_name col)) ?names"
  proof -
    fix col assume "col \<in> set ?nc"
    then have "col_name col \<in> set ?names" by simp
    moreover have "ident_eq (col_name col) (col_name col)" by (simp add: ident_eq_def)
    ultimately show "list_ex (ident_eq (col_name col)) ?names"
      unfolding list_ex_iff by (rule bexI [rotated])
  qed
  let ?copy = "\<lambda>r. map (\<lambda>c. (col_name c,
                   if list_ex (ident_eq (col_name c)) ?names
                   then (case row_get r (col_name c) of Some v \<Rightarrow> v | None \<Rightarrow> SNull)
                   else default_value c)) ?nc"
  have copy: "map ?copy (tbl_rows t) = map (filter (\<lambda>(k, v). k \<noteq> c)) (tbl_rows t)"
  proof (rule map_cong [OF refl])
    fix r assume r: "r \<in> set (tbl_rows t)"
    with rows have keys: "map fst r = map col_name (tbl_columns t)"
      by (simp add: list_all_iff)
    with dist have dr: "distinct_idents (map fst r)" by simp
    have "?copy r = map (\<lambda>col. (col_name col, case row_get r (col_name col) of
                                     Some v \<Rightarrow> v | None \<Rightarrow> SNull)) ?nc"
      by (rule map_cong [OF refl]) (simp add: named)
    also have "\<dots> = filter (\<lambda>(k, v). k \<noteq> c) r"
      unfolding nt(1) by (rule project_row [OF dr keys])
    finally show "?copy r = filter (\<lambda>(k, v). k \<noteq> c) r" .
  qed
  have ne': "?names \<noteq> []" using ne by simp
  show ?thesis
    unfolding sql_insert_select_def Let_def dst src option.case copy
    using ne' cols_ok nt(2) by (simp only: if_False append_Nil simp_thms)
qed

lemma cursor_execute_ok:
  "in_transaction conn \<Longrightarrow> st \<noteq> Begin_Transaction \<Longrightarrow> run_statement (view conn) st = Inr d' \<Longrightarrow>
   cursor_execute no_fault k conn st = Inr (conn\<lparr>view := d'\<rparr>)"
  by (simp add: cursor_execute_def no_fault_def)

lemma drop_column_success:
  assumes wf: "wf_catalog d" and tag: "c \<in> set (get_tag_columns d)"
  shows "\<exists>d'. drop_column_from_table no_fault d ''hdri'' c = (d', None)
        \<and> pragma_table_info d' ''hdri'' = filter (\<lambda>i. col_name i \<noteq> c) (pragma_table_info d ''hdri'')
        \<and> hdri_rows d' = map (filter (\<lambda>(k, v). k \<noteq> c)) (hdri_rows d)
        \<and> get_table d' ''hdri_backup'' = None"
proof -
  from wf obtain t tags where t: "get_table d ''hdri'' = Some t"
      and cols: "tbl_columns t = hdri_columns @ tags"
      and tags: "list_all tag_column tags"
      and dist: "distinct_idents (map col_name (tbl_columns t))"
      and rows: "list_all (\<lambda>r. map fst r = map col_name (tbl_columns t)) (tbl_rows t)"
      and nobk: "get_table d ''hdri_backup'' = None"
    by (rule wf_catalogD)
  define nc where "nc = filter (\<lambda>col. col_name col \<noteq> c) (tbl_columns t)"
  define nt where "nt = \<lparr>tbl_columns = nc, tbl_rows = [], tbl_autoincrement = False, tbl_unique = []\<rparr>"
  define d1 where "d1 = d\<lparr>db_tables := db_tables d @ [(''hdri_backup'', nt)]\<rparr>"
  define nt2 where "nt2 = nt\<lparr>tbl_rows := map (filter (\<lambda>(k, v). k \<noteq> c)) (tbl_rows t)\<rparr>"
  define d2 where "d2 = set_table d1 ''hdri_backup'' nt2"
  from tag t have c_tag: "startswith c ''tag_''"
    by (auto simp: get_tag_columns_def pragma_table_info_def)
  have all_readable: "list_all readable (tbl_columns t)"
    using cols tags readable_hdri_columns readable_tag_column by (auto simp: list_all_iff)
  then have nc_readable: "list_all readable nc" by (simp add: list_all_iff nc_def)
  have "(plain_column ''id'' ''INTEGER'')\<lparr>col_pk := 1\<rparr> \<in> set nc"
    using cols startswith_tag_not_id [OF c_tag]
    by (auto simp: hdri_columns_def plain_column_def nc_def)
  from length_pos_if_in_set [OF this] have "0 < length nc" .
  then have nc_ne: "nc \<noteq> []" by (metis length_greater_0_conv)
  have nc_dist: "distinct_idents (map col_name nc)"
  proof -
    have "map col_name nc = filter (\<lambda>n. n \<noteq> c) (map col_name (tbl_columns t))"
      by (simp add: filter_map comp_def nc_def)
    with dist show ?thesis by (simp add: distinct_idents_filter)
  qed
  have pk: "length (filter (\<lambda>c. col_pk c \<noteq> 0) nc) \<le> 1"
  proof -
    have "length (filter (\<lambda>c. col_pk c \<noteq> 0) (tbl_columns t)) = 1"
      by (simp only: cols filter_append length_append tags_no_pk [OF tags] hdri_columns_pk
          list.size add_0_right)
    moreover have "filter (\<lambda>c. col_pk c \<noteq> 0) nc
        = filter (\<lambda>col. col_name col \<noteq> c) (filter (\<lambda>c. col_pk c \<noteq> 0) (tbl_columns t))"
      by (simp add: conj_commute nc_def)
    ultimately show ?thesis
      using length_filter_le [of "\<lambda>col. col_name col \<noteq> c" "filter (\<lambda>c. col_pk c \<noteq> 0) (tbl_columns t)"]
      by simp
  qed
  have create: "sql_create_table d ''hdri_backup'' (map col_def nc) = Inr d1"
    unfolding d1_def nt_def by (rule create_backup [OF nobk nc_ne nc_readable nc_dist pk])
  have g1: "\<And>m. get_table d1 m = (if m = ''hdri_backup'' then Some nt else get_table d m)"
    unfolding d1_def by (rule get_table_create [OF nobk])
  have ntc: "tbl_columns nt = nc" "tbl_rows nt = []" by (simp_all add: nt_def)
  have copy: "sql_insert_select d1 ''hdri_backup'' (map col_name nc) ''hdri'' = Inr d2"
    using copy_into_backup [of d1 "''hdri_backup''" nt c t "''hdri''"] g1 t nc_ne dist rows ntc
    by (simp add: nc_def [symmetric] nt2_def d2_def)
  have g2: "\<And>m. get_table d2 m = (if m = ''hdri_backup'' then Some nt2 else get_table d m)"
    by (simp add: d2_def get_table_set_table g1)
  have "get_table d2 ''hdri'' \<noteq> None" by (simp add: g2 t)
  from get_table_drop [OF this] obtain d3 where
    drop: "sql_drop_table d2 ''hdri'' = Inr d3"
    and g3: "\<And>m. get_table d3 m = (if m = ''hdri'' then None else get_table d2 m)"
    by blast
  have "get_table d3 ''hdri_backup'' \<noteq> None" "get_table d3 ''hdri'' = None"
    by (simp_all add: g3 g2)
  from get_table_rename [OF this] obtain d4 where
    rename: "sql_rename_table d3 ''hdri_backup'' ''hdri'' = Inr d4"
    and g4: "\<And>m. get_table d4 m =
        (if m = ''hdri'' then get_table d3 ''hdri_backup''
         else if m = ''hdri_backup'' then None else get_table d3 m)"
    by blast
  have final: "get_table d4 ''hdri'' = Some nt2" "get_table d4 ''hdri_backup'' = None"
    by (simp_all add: g4 g3 g2)
  let ?c0 = "sqlite3_connect d"
  let ?c1 = "?c0\<lparr>in_transaction := True\<rparr>"
  have e0: "\<And>k. cursor_execute no_fault k ?c0 Begin_Transaction = Inr ?c1"
    by (simp add: cursor_execute_def no_fault_def sqlite3_connect_def)
  have e1: "\<And>k. cursor_execute no_fault k ?c1 (Create_Table ''hdri_backup'' (map col_def nc))
      = Inr (?c1\<lparr>view := d1\<rparr>)"
    by (rule cursor_execute_ok) (simp_all add: sqlite3_connect_def create)
  have e2: "\<And>k. cursor_execute no_fault k (?c1\<lparr>view := d1\<rparr>)
      (Insert_Select ''hdri_backup'' (map col_name nc) ''hdri'') = Inr (?c1\<lparr>view := d2\<rparr>)"
    using cursor_execute_ok [of "?c1\<lparr>view := d1\<rparr>"
        "Insert_Select ''hdri_backup'' (map col_name nc) ''hdri''" d2] copy
    by (simp add: sqlite3_connect_def)
  have e3: "\<And>k. cursor_execute no_fault k (?c1\<lparr>view := d2\<rparr>) (Drop_Table ''hdri'')
      = Inr (?c1\<lparr>view := d3\<rparr>)"
    using cursor_execute_ok [of "?c1\<lparr>view := d2\<rparr>" "Drop_Table ''hdri''" d3] drop
    by (simp add: sqlite3_connect_def)
  have e4: "\<And>k. cursor_execute no_fault k (?c1\<lparr>view := d3\<rparr>) (Rename_Table ''hdri_backup'' ''hdri'')
      = Inr (?c1\<lparr>view := d4\<rparr>)"
    using cursor_execute_ok [of "?c1\<lparr>view := d3\<rparr>" "Rename_Table ''hdri_backup'' ''hdri''" d4]
      rename
    by (simp add: sqlite3_connect_def)
  have nt2c: "tbl_columns nt2 = nc" "tbl_rows nt2 = map (filter (\<lambda>(k, v). k \<noteq> c)) (tbl_rows t)"
    by (simp_all add: nt2_def nt_def)
  have pt: "pragma_table_info (view ?c0) ''hdri'' = tbl_columns t"
    by (simp add: pragma_table_info_def sqlite3_connect_def t)
  have run: "execute_all no_fault 0 ?c0
       [Begin_Transaction, Create_Table ''hdri_backup'' (map col_def nc),
        Insert_Select ''hdri_backup'' (map col_name nc) ''hdri'',
        Drop_Table ''hdri'', Rename_Table ''hdri_backup'' ''hdri'']
     = (?c1\<lparr>view := d4\<rparr>, None)"
    by (simp add: e0 e1 e2 e3 e4)
  have res: "drop_column_from_table no_fault d ''hdri'' c = (d4, None)"
    unfolding drop_column_from_table_def rebuild_calls_def Let_def pt nc_def [symmetric]
    using run by (simp add: no_fault_def conn_commit_def)
  show ?thesis
    using res final t nt2c
    by (simp add: pragma_table_info_def hdri_rows_def nc_def)
qed

subsection \<open>Removing a tag\<close>

lemma wf_example_catalog: "wf_catalog example_catalog"
  by code_simp

lemma tags_example_catalog: "get_tag_columns example_catalog = [''tag_sky'']"
  by code_simp

text \<open>
  Claim C5. In a catalog as the operations make it, removing a tag column \<open>c\<close> succeeds
  when the store does not fail; the descriptions of the columns that \<open>PRAGMA table_info\<close>
  lists afterwards (name, type, NOT NULL, default, primary key) are those of before
  without the one of \<open>c\<close>, and the rows are the rows of before, in their order, each
  without its value for \<open>c\<close>.
\<close>

theorem drop_column_frame:
  assumes "wf_catalog d" and "c \<in> set (get_tag_columns d)"
  shows "\<exists>d'. drop_column_from_table no_fault d ''hdri'' c = (d', None)
        \<and> pragma_table_info d' ''hdri'' = filter (\<lambda>i. col_name i \<noteq> c) (pragma_table_info d ''hdri'')
        \<and> hdri_rows d' = map (filter (\<lambda>(k, v). k \<noteq> c)) (hdri_rows d)"
  using drop_column_success [OF assms] by blast

text \<open>The theorem at the small catalog and its tag \<open>tag_sky\<close>.\<close>

theorem drop_column_frame_witness:
  "wf_catalog example_catalog \<and> ''tag_sky'' \<in> set (get_tag_columns example_catalog)
   \<and> (\<exists>d'. drop_column_from_table no_fault example_catalog ''hdri'' ''tag_sky'' = (d', None)
        \<and> pragma_table_info d' ''hdri'' = hdri_columns
        \<and> hdri_rows d' =
             [[(''id'', SInt 1), (''file_path'', SText ''/s/00001_a/a.hdr''),
               (''preview_path'', SText ''/s/00001_a/preview.jpg''), (''name'', SText ''a''),
               (''upload_date'', SText ''d0''), (''hash'', SText ''f0'')],
              [(''id'', SInt 2), (''file_path'', SText ''/s/00002_b/b.png''),
               (''preview_path'', SText ''/s/00002_b/preview.jpg''), (''name'', SText ''b''),
               (''upload_date'', SText ''d1''), (''hash'', SText ''0f'')]])"
proof -
  have t: "''tag_sky'' \<in> set (get_tag_columns example_catalog)"
    by (simp add: tags_example_catalog)
  have c: "filter (\<lambda>i. col_name i \<noteq> ''tag_sky'') (pragma_table_info example_catalog ''hdri'')
      = hdri_columns"
    by code_simp
  have r: "map (filter (\<lambda>(k, v). k \<noteq> ''tag_sky'')) (hdri_rows example_catalog) =
             [[(''id'', SInt 1), (''file_path'', SText ''/s/00001_a/a.hdr''),
               (''preview_path'', SText ''/s/00001_a/preview.jpg''), (''name'', SText ''a''),
               (''upload_date'', SText ''d0''), (''hash'', SText ''f0'')],
              [(''id'', SInt 2), (''file_path'', SText ''/s/00002_b/b.png''),
               (''preview_path'', SText ''/s/00002_b/preview.jpg''), (''name'', SText ''b''),
               (''upload_date'', SText ''d1''), (''hash'', SText ''0f'')]]"
    by code_simp
  from drop_column_frame [OF wf_example_catalog t] wf_example_catalog t
  show ?thesis unfolding c r by (intro conjI)
qed

text \<open>
  Claim C6 against the code. Whatever fails in \<open>drop_column_from_table\<close>, the catalog
  in the file is the one of before, and \<open>delete_tag\<close> prints the failure: so far the
  code does what the claim says. But the function is left without \<open>rollback\<close> and
  without \<open>close\<close>. In the small catalog, with the disk full at the copy of the rows
  (call 2), the connection stays open inside a transaction that has written, so it
  holds the write lock; while it is open, the removal tried again fails at its first
  writing statement with \<open>database is locked\<close>, and the tag is still there. With no
  connection left open the same removal succeeds.
\<close>

theorem failed_removal_keeps_write_lock:
  "delete_tag (\<lambda>k. if k = 2 then Some ''database or disk is full'' else None)
       example_catalog ''tag_sky'' =
     (example_catalog, Delete_Failed ''Error deleting tag: database or disk is full'')
   \<and> (case left_open (\<lambda>k. if k = 2 then Some ''database or disk is full'' else None)
              example_catalog ''hdri'' ''tag_sky'' of
         None \<Rightarrow> False
       | Some conn \<Rightarrow>
           on_disk conn = example_catalog \<and> holds_write_lock conn \<and>
           delete_tag (locked_out conn) example_catalog ''tag_sky'' =
             (example_catalog, Delete_Failed ''Error deleting tag: database is locked''))
   \<and> get_tag_columns example_catalog = [''tag_sky'']
   \<and> snd (delete_tag no_fault example_catalog ''tag_sky'') = Tag_Deleted
   \<and> get_tag_columns (fst (delete_tag no_fault example_catalog ''tag_sky'')) = []"
  by code_simp

subsection \<open>Ingesting\<close>

lemma ident_eq_trans2: "ident_eq k a \<Longrightarrow> ident_eq k b \<Longrightarrow> ident_eq a b"
  by (simp add: ident_eq_def)

lemma row_get_row_set_other:
  "\<not> ident_eq a b \<Longrightarrow> row_get (row_set r a v) b = row_get r b"
proof (induction r)
  case Nil
  then show ?case by (simp add: row_set_def)
next
  case (Cons p r)
  obtain k old where p: "p = (k, old)" by (cases p)
  from Cons have ih: "row_get (row_set r a v) b = row_get r b" by simp
  have step: "row_set ((k, old) # r) a v = (if ident_eq k a then (k, v) else (k, old)) # row_set r a v"
    by (simp add: row_set_def)
  show ?case
  proof (cases "ident_eq k b")
    case True
    with Cons.prems have "\<not> ident_eq k a" using ident_eq_trans2 by blast
    with True show ?thesis by (simp add: step p)
  next
    case False
    then show ?thesis by (simp add: step p ih)
  qed
qed

lemma keys_row_set: "map fst (row_set r a v) = map fst r"
  by (induction r) (auto simp: row_set_def)

lemma tag_name_split: "startswith n ''tag_'' \<Longrightarrow> \<exists>rest. n = ''tag_'' @ rest"
  by (metis startswith_def append_take_drop_id)

lemma tag_not_base:
  assumes "startswith n ''tag_''"
  shows "\<not> ident_eq ''id'' n" "\<not> ident_eq ''file_path'' n" "\<not> ident_eq ''preview_path'' n"
    "\<not> ident_eq ''name'' n" "\<not> ident_eq ''upload_date'' n" "\<not> ident_eq ''hash'' n"
proof -
  from tag_name_split [OF assms] obtain rest where "n = ''tag_'' @ rest" ..
  then show "\<not> ident_eq ''id'' n" "\<not> ident_eq ''file_path'' n" "\<not> ident_eq ''preview_path'' n"
    "\<not> ident_eq ''name'' n" "\<not> ident_eq ''upload_date'' n" "\<not> ident_eq ''hash'' n"
    by (simp_all add: ident_eq_def sql_lower_def)
qed

lemma get_table_set_sequence [simp]: "get_table (set_sequence d n s) m = get_table d m"
  by (simp add: set_sequence_def get_table_def)

lemma wf_tableI:
  assumes "tbl_columns t = hdri_columns @ tags" "list_all tag_column tags"
    "distinct_idents (map col_name (tbl_columns t))"
    "list_all (\<lambda>r. map fst r = map col_name (tbl_columns t)) (tbl_rows t)"
    "list_all (\<lambda>u. u = ''hash'') (tbl_unique t)"
  shows "wf_table t"
proof -
  have "length hdri_columns = 6" by (simp add: hdri_columns_def)
  with assms show ?thesis by (simp add: wf_table_def)
qed

lemma wf_catalog_table:
  "wf_catalog d \<Longrightarrow> \<exists>t. get_table d ''hdri'' = Some t \<and> wf_table t"
  by (auto simp: wf_catalog_def split: option.splits)

lemma wf_table_rows:
  "wf_table t \<Longrightarrow> list_all (\<lambda>r. map fst r = map col_name (tbl_columns t)) rs \<Longrightarrow>
   wf_table (t\<lparr>tbl_rows := rs\<rparr>)"
  by (simp add: wf_table_def)

lemma wf_catalog_update:
  assumes "wf_catalog d" "wf_table t'"
    and "\<And>m. get_table d' m = (if m = ''hdri'' then Some t' else get_table d m)"
  shows "wf_catalog d'"
  using assms by (auto simp: wf_catalog_def split: option.splits)

lemma wf_has_columns:
  assumes "tbl_columns t = hdri_columns @ tags"
  shows "has_column t ''id''" "has_column t ''hash''" "has_column t ''file_path''"
    "has_column t ''preview_path''" "has_column t ''name''" "has_column t ''upload_date''"
  by (rule has_column_member, simp add: assms hdri_columns_def plain_column_def)+

lemma select_id_by_hash_wf:
  assumes "wf_catalog d"
  shows "select_id_by_hash d h =
     Inr (case filter (has_hash h) (hdri_rows d) of
            [] \<Rightarrow> None
          | r # _ \<Rightarrow> Some (case row_get r ''id'' of Some v \<Rightarrow> v | None \<Rightarrow> SNull))"
proof -
  from assms obtain t tags where t: "get_table d ''hdri'' = Some t"
    and cols: "tbl_columns t = hdri_columns @ tags"
    by (rule wf_catalogD)
  from wf_has_columns [OF cols] t show ?thesis
    by (simp add: select_id_by_hash_def hdri_rows_def has_hash_def [abs_def] split: list.splits)
qed

lemma tag_column_default: "tag_column c \<Longrightarrow> default_value c = SInt 0"
proof -
  assume "tag_column c"
  then have c: "c = boolean_column (col_name c)" by (simp add: tag_column_def)
  have "default_value (boolean_column (col_name c)) = SInt 0"
    by (simp add: default_value_def boolean_column_def plain_column_def sql_literal_def)
  with c show ?thesis by simp
qed

lemma tag_column_notnull: "tag_column c \<Longrightarrow> \<not> col_notnull c"
proof -
  assume "tag_column c"
  then have c: "c = boolean_column (col_name c)" by (simp add: tag_column_def)
  have "\<not> col_notnull (boolean_column (col_name c))"
    by (simp add: boolean_column_def plain_column_def)
  with c show ?thesis by simp
qed

lemma new_row_wf:
  assumes cols: "tbl_columns t = hdri_columns @ tags" and tags: "list_all tag_column tags"
  shows "new_row t rowid [(''file_path'', fp), (''preview_path'', pp), (''name'', nm),
                          (''upload_date'', ud), (''hash'', hs)]
       = [(''id'', SInt rowid), (''file_path'', fp), (''preview_path'', pp), (''name'', nm),
          (''upload_date'', ud), (''hash'', hs)] @ map (\<lambda>c. (col_name c, SInt 0)) tags"
proof -
  let ?given = "[(''file_path'', fp), (''preview_path'', pp), (''name'', nm),
                 (''upload_date'', ud), (''hash'', hs)]"
  let ?f = "\<lambda>c. (col_name c,
                if col_pk c \<noteq> 0 then SInt rowid
                else (case row_get ?given (col_name c) of
                        Some v \<Rightarrow> v
                      | None \<Rightarrow> default_value c))"
  have base: "map ?f hdri_columns =
      [(''id'', SInt rowid), (''file_path'', fp), (''preview_path'', pp), (''name'', nm),
       (''upload_date'', ud), (''hash'', hs)]"
    by (simp add: hdri_columns_def plain_column_def ident_eq_def sql_lower_def)
  have rest: "map ?f tags = map (\<lambda>c. (col_name c, SInt 0)) tags"
  proof (rule map_cong [OF refl])
    fix c assume "c \<in> set tags"
    with tags have tc: "tag_column c" by (simp add: list_all_iff)
    then have "startswith (col_name c) ''tag_''" by (simp add: tag_column_def)
    from tag_not_base [OF this] have "row_get ?given (col_name c) = None" by simp
    with tag_column_pk [OF tc] tag_column_default [OF tc]
    show "?f c = (col_name c, SInt 0)" by simp
  qed
  show ?thesis
    unfolding new_row_def cols map_append base rest ..
qed

lemma sql_insert_wf:
  assumes t: "get_table d ''hdri'' = Some t"
    and cols: "tbl_columns t = hdri_columns @ tags" and tags: "list_all tag_column tags"
    and uniq: "list_all (\<lambda>u. u = ''hash'') (tbl_unique t)"
    and fresh: "\<not> list_ex (has_hash h) (tbl_rows t)"
  shows "\<exists>d2. sql_insert d ''hdri'' [(''file_path'', SText fp), (''preview_path'', SText pp),
                 (''name'', SText nm), (''upload_date'', SText ud), (''hash'', SText h)]
           = Inr (d2, next_rowid d ''hdri'' t)
         \<and> (\<forall>m. get_table d2 m =
              (if m = ''hdri''
               then Some (t\<lparr>tbl_rows := tbl_rows t @
                     [[(''id'', SInt (next_rowid d ''hdri'' t)), (''file_path'', SText fp),
                       (''preview_path'', SText pp), (''name'', SText nm),
                       (''upload_date'', SText ud), (''hash'', SText h)]
                      @ map (\<lambda>c. (col_name c, SInt 0)) tags]\<rparr>)
               else get_table d m))"
proof -
  let ?rid = "next_rowid d ''hdri'' t"
  let ?given = "[(''file_path'', SText fp), (''preview_path'', SText pp),
                 (''name'', SText nm), (''upload_date'', SText ud), (''hash'', SText h)]"
  let ?row = "[(''id'', SInt ?rid), (''file_path'', SText fp),
               (''preview_path'', SText pp), (''name'', SText nm),
               (''upload_date'', SText ud), (''hash'', SText h)]
              @ map (\<lambda>c. (col_name c, SInt 0)) tags"
  have row: "new_row t ?rid ?given = ?row" by (rule new_row_wf [OF cols tags])
  have nn_base: "\<not> list_ex (\<lambda>c. col_notnull c \<and> row_get ?row (col_name c) = Some SNull) hdri_columns"
    by (simp add: hdri_columns_def plain_column_def ident_eq_def sql_lower_def)
  have nn_tags: "\<not> list_ex (\<lambda>c. col_notnull c \<and> row_get ?row (col_name c) = Some SNull) tags"
    using tags tag_column_notnull by (auto simp: list_ex_iff list_all_iff)
  have nn: "\<not> violates_notnull t ?row"
    unfolding violates_notnull_def cols list_ex_append using nn_base nn_tags by blast
  have hash_row: "row_get ?row ''hash'' = Some (SText h)"
    by (simp add: ident_eq_def sql_lower_def)
  have un: "\<not> violates_unique t ?row"
  proof -
    have "\<And>u. u \<in> set (tbl_unique t) \<Longrightarrow>
        \<not> list_ex (\<lambda>r. row_get r u = row_get ?row u) (tbl_rows t)"
    proof -
      fix u assume "u \<in> set (tbl_unique t)"
      with uniq have u: "u = ''hash''" by (simp add: list_all_iff)
      from fresh show "\<not> list_ex (\<lambda>r. row_get r u = row_get ?row u) (tbl_rows t)"
        unfolding u hash_row by (simp add: has_hash_def [abs_def])
    qed
    then show ?thesis by (auto simp: violates_unique_def list_ex_iff)
  qed
  let ?t2 = "t\<lparr>tbl_rows := tbl_rows t @ [?row]\<rparr>"
  let ?d1 = "set_table d ''hdri'' ?t2"
  let ?d2 = "if tbl_autoincrement t then set_sequence ?d1 ''hdri'' ?rid else ?d1"
  have ins: "sql_insert d ''hdri'' ?given = Inr (?d2, ?rid)"
    unfolding sql_insert_def t option.case Let_def row
    using nn un by (simp only: if_False)
  have g: "\<And>m. get_table ?d2 m = (if m = ''hdri'' then Some ?t2 else get_table d m)"
    by (simp add: get_table_set_table t)
  from ins g show ?thesis by blast
qed

lemma sql_update_wf:
  assumes "get_table d ''hdri'' = Some t" "has_column t cname" "has_column t ''id''"
  shows "\<exists>d2. sql_update d ''hdri'' cname v i = Inr d2
         \<and> (\<forall>m. get_table d2 m =
              (if m = ''hdri''
               then Some (t\<lparr>tbl_rows := map (\<lambda>r. if row_get r ''id'' = Some (SInt i)
                                                    then row_set r cname v else r)
                                              (tbl_rows t)\<rparr>)
               else get_table d m))"
  using assms by (simp add: sql_update_def get_table_set_table)

lemma has_hash_row_set:
  "\<not> ident_eq a ''hash'' \<Longrightarrow> has_hash h (row_set r a v) = has_hash h r"
  by (simp add: has_hash_def row_get_row_set_other)

lemma count_hash_map:
  assumes "\<And>r. has_hash h (g r) = has_hash h r"
  shows "length (filter (has_hash h) (map g rs)) = length (filter (has_hash h) rs)"
  by (induction rs) (simp_all add: assms)

lemma ingest_duplicate:
  assumes wf: "wf_catalog (db w)" and hash: "compute_image_hash env p = Some h"
    and dup: "list_ex (has_hash h) (hdri_rows (db w))"
  shows "add_hdri_file env w p =
     (w, Inr (Duplicate_Warning (''Image '' @ basename p @ '' already exists in the database.'')))"
proof -
  from dup obtain r rs where "filter (has_hash h) (hdri_rows (db w)) = r # rs"
    by (cases "filter (has_hash h) (hdri_rows (db w))") (auto simp: list_ex_iff filter_empty_conv)
  then have "\<exists>v. select_id_by_hash (db w) h = Inr (Some v)"
    by (simp add: select_id_by_hash_wf [OF wf])
  then obtain v where "select_id_by_hash (db w) h = Inr (Some v)" ..
  with hash show ?thesis by (simp add: add_hdri_file_def)
qed

text \<open>
  What one ingest of a file with a new hash does to the catalog: the row it inserts, and
  the states in which it can leave the world.
\<close>

lemma ingest_new:
  assumes wf: "wf_catalog (db w)" and hash: "compute_image_hash env p = Some h"
    and fresh: "\<not> list_ex (has_hash h) (hdri_rows (db w))"
  shows "\<exists>w1 res row. add_hdri_file env w p = (w1, res)
      \<and> wf_catalog (db w1)
      \<and> length (hdri_rows (db w1)) = Suc (length (hdri_rows (db w)))
      \<and> length (filter (has_hash h) (hdri_rows (db w1))) = 1
      \<and> (\<not> copy_ok env p \<longrightarrow>
            (\<exists>m. res = Inl (OSError m)) \<and> files w1 = files w \<and>
            hdri_rows (db w1) = hdri_rows (db w) @ [row] \<and> has_hash h row \<and>
            row_get row ''file_path'' = Some (SText []) \<and>
            row_get row ''preview_path'' = Some (SText []))
      \<and> ((\<forall>f. makedirs_ok env f) \<and> copy_ok env p \<longrightarrow>
            (\<exists>i. res = Inr (Ingested i)) \<and>
            map (\<lambda>r. row_get r ''hash'') (hdri_rows (db w1)) =
              map (\<lambda>r. row_get r ''hash'') (hdri_rows (db w)) @ [Some (SText h)])"
proof -
  from wf obtain t tags where t: "get_table (db w) ''hdri'' = Some t"
      and cols: "tbl_columns t = hdri_columns @ tags"
      and tags: "list_all tag_column tags"
      and dist: "distinct_idents (map col_name (tbl_columns t))"
      and rows: "list_all (\<lambda>r. map fst r = map col_name (tbl_columns t)) (tbl_rows t)"
      and nobk: "get_table (db w) ''hdri_backup'' = None"
      and uniq: "list_all (\<lambda>u. u = ''hash'') (tbl_unique t)"
    by (rule wf_catalogD)
  have wft: "wf_table t" by (rule wf_tableI [OF cols tags dist rows uniq])
  have hr: "hdri_rows (db w) = tbl_rows t" by (simp add: hdri_rows_def t)
  from fresh have none: "filter (has_hash h) (tbl_rows t) = []"
    by (simp add: hr list_ex_iff filter_empty_conv)
  have sel: "select_id_by_hash (db w) h = Inr None"
    by (simp add: select_id_by_hash_wf [OF wf] hr none)
  define nm where "nm = fst (splitext (basename p))"
  define ud where "ud = isoformat env (clock w)"
  define rid where "rid = next_rowid (db w) ''hdri'' t"
  define row where "row = [(''id'', SInt rid), (''file_path'', SText []),
      (''preview_path'', SText []), (''name'', SText nm), (''upload_date'', SText ud),
      (''hash'', SText h)] @ map (\<lambda>c. (col_name c, SInt 0)) tags"
  define t2 where "t2 = t\<lparr>tbl_rows := tbl_rows t @ [row]\<rparr>"
  from fresh have fresh': "\<not> list_ex (has_hash h) (tbl_rows t)" by (simp add: hr)
  from sql_insert_wf [OF t cols tags uniq fresh', of "[]" "[]" nm ud]
  obtain d2 where ins: "sql_insert (db w) ''hdri'' [(''file_path'', SText []),
        (''preview_path'', SText []), (''name'', SText nm), (''upload_date'', SText ud),
        (''hash'', SText h)] = Inr (d2, rid)"
    and g2: "\<And>m. get_table d2 m = (if m = ''hdri'' then Some t2 else get_table (db w) m)"
    unfolding rid_def t2_def row_def by blast
  have keys_row: "map fst row = map col_name (tbl_columns t)"
    by (simp add: row_def cols hdri_columns_def plain_column_def comp_def)
  have hash_row: "has_hash h row"
    by (simp add: row_def has_hash_def ident_eq_def sql_lower_def)
  have fp_row: "row_get row ''file_path'' = Some (SText [])"
    "row_get row ''preview_path'' = Some (SText [])"
    by (simp_all add: row_def ident_eq_def sql_lower_def)
  have wft2: "wf_table t2"
    unfolding t2_def using rows keys_row by (intro wf_table_rows [OF wft]) simp
  have wf2: "wf_catalog d2" by (rule wf_catalog_update [OF wf wft2 g2])
  have rows2: "hdri_rows d2 = tbl_rows t @ [row]" by (simp add: hdri_rows_def g2 t2_def)
  have count2: "length (filter (has_hash h) (hdri_rows d2)) = 1"
    by (simp add: rows2 none hash_row)
  have c2: "tbl_columns t2 = hdri_columns @ tags" by (simp add: t2_def cols)
  define folder where "folder = path_join (HDRI_STORAGE_FOLDER env) (format_05d rid @ CHR ''_'' # nm)"
  define nfp where "nfp = path_join folder (basename p)"
  define pvp where "pvp = path_join folder ''preview.jpg''"
  define u1 where "u1 = (\<lambda>r. if row_get r ''id'' = Some (SInt rid)
                              then row_set r ''file_path'' (SText nfp) else r)"
  define u2 where "u2 = (\<lambda>r. if row_get r ''id'' = Some (SInt rid)
                              then row_set r ''preview_path'' (SText pvp) else r)"
  define t3 where "t3 = t2\<lparr>tbl_rows := map u1 (tbl_rows t2)\<rparr>"
  define t4 where "t4 = t3\<lparr>tbl_rows := map u2 (tbl_rows t3)\<rparr>"
  have g2h: "get_table d2 ''hdri'' = Some t2" by (simp add: g2)
  from sql_update_wf [OF g2h wf_has_columns(3) [OF c2] wf_has_columns(1) [OF c2],
      of "SText nfp" rid]
  obtain d3 where up1: "sql_update d2 ''hdri'' ''file_path'' (SText nfp) rid = Inr d3"
    and g3: "\<And>m. get_table d3 m = (if m = ''hdri'' then Some t3 else get_table d2 m)"
    unfolding t3_def u1_def by blast
  have c3: "tbl_columns t3 = hdri_columns @ tags" by (simp add: t3_def c2)
  have g3h: "get_table d3 ''hdri'' = Some t3" by (simp add: g3)
  from sql_update_wf [OF g3h wf_has_columns(4) [OF c3] wf_has_columns(1) [OF c3],
      of "SText pvp" rid]
  obtain d4 where up2: "sql_update d3 ''hdri'' ''preview_path'' (SText pvp) rid = Inr d4"
    and g4: "\<And>m. get_table d4 m = (if m = ''hdri'' then Some t4 else get_table d3 m)"
    unfolding t4_def u2_def by blast
  have keys_u: "\<And>r. map fst (u1 r) = map fst r" "\<And>r. map fst (u2 r) = map fst r"
    by (simp_all add: u1_def u2_def keys_row_set)
  have hash_u: "\<And>r. has_hash h (u1 r) = has_hash h r" "\<And>r. has_hash h (u2 r) = has_hash h r"
    by (simp_all add: u1_def u2_def has_hash_row_set ident_eq_def sql_lower_def)
  have rows4: "tbl_rows t4 = map u2 (map u1 (tbl_rows t @ [row]))"
    by (simp add: t4_def t3_def t2_def)
  have wft4: "wf_table t4"
  proof -
    have "list_all (\<lambda>r. map fst r = map col_name (tbl_columns t)) (map u2 (map u1 (tbl_rows t @ [row])))"
      using rows keys_row by (simp add: list_all_iff keys_u)
    then have "wf_table (t\<lparr>tbl_rows := map u2 (map u1 (tbl_rows t @ [row]))\<rparr>)"
      by (rule wf_table_rows [OF wft])
    then show ?thesis by (simp add: t4_def t3_def t2_def)
  qed
  have g4': "\<And>m. get_table d4 m = (if m = ''hdri'' then Some t4 else get_table (db w) m)"
    by (simp add: g4 g3 g2)
  have wf4: "wf_catalog d4" by (rule wf_catalog_update [OF wf wft4 g4'])
  have hr4: "hdri_rows d4 = map u2 (map u1 (tbl_rows t @ [row]))"
    by (simp add: hdri_rows_def g4' rows4)
  have count4: "length (filter (has_hash h) (hdri_rows d4)) = 1"
    unfolding hr4 count_hash_map [of h u2, OF hash_u(2)] count_hash_map [of h u1, OF hash_u(1)]
    by (simp add: none hash_row)
  have len4: "length (hdri_rows d4) = Suc (length (tbl_rows t))" by (simp add: hr4)
  have get_u: "\<And>r. row_get (u1 r) ''hash'' = row_get r ''hash''"
    "\<And>r. row_get (u2 r) ''hash'' = row_get r ''hash''"
    by (simp_all add: u1_def u2_def row_get_row_set_other ident_eq_def sql_lower_def)
  have get_row: "row_get row ''hash'' = Some (SText h)"
    by (simp add: row_def ident_eq_def sql_lower_def)
  have hashes4: "map (\<lambda>r. row_get r ''hash'') (hdri_rows d4) =
      map (\<lambda>r. row_get r ''hash'') (tbl_rows t) @ [Some (SText h)]"
    by (simp add: hr4 get_u get_row comp_def)
  let ?w2 = "w\<lparr>clock := Suc (clock w), db := d2\<rparr>"
  show ?thesis
  proof (cases "makedirs_ok env folder")
    case nmk: False
    then have "add_hdri_file env w p = (?w2, Inl (OSError (''cannot create '' @ folder)))"
      by (simp add: add_hdri_file_def hash sel Let_def ins
          nm_def [symmetric] ud_def [symmetric] folder_def [symmetric])
    with wf2 rows2 count2 hash_row fp_row hr nmk show ?thesis by auto
  next
    case mk: True
    let ?w3 = "?w2\<lparr>dirs := List.insert folder (dirs w)\<rparr>"
    show ?thesis
    proof (cases "copy_ok env p")
      case False
      with mk have "add_hdri_file env w p = (?w3, Inl (OSError (''cannot copy '' @ p)))"
        by (simp add: add_hdri_file_def hash sel Let_def ins
            nm_def [symmetric] ud_def [symmetric] folder_def [symmetric])
      with wf2 rows2 count2 hash_row fp_row hr False show ?thesis by auto
    next
      case True
      let ?w4 = "?w3\<lparr>files := List.insert nfp (files w)\<rparr>"
      let ?w5 = "if preview_ok env nfp then ?w4\<lparr>files := List.insert pvp (List.insert nfp (files w))\<rparr>
                 else ?w4"
      from mk True have "add_hdri_file env w p = (?w5\<lparr>db := d4\<rparr>, Inr (Ingested rid))"
        by (simp add: add_hdri_file_def hash sel Let_def ins up1 up2
            nm_def [symmetric] ud_def [symmetric] folder_def [symmetric]
            nfp_def [symmetric] pvp_def [symmetric])
      with wf4 count4 len4 hr hashes4 True show ?thesis by auto
    qed
  qed
qed

lemma wf_example_world: "wf_catalog (db example_world)"
  by (simp add: example_world_def wf_example_catalog)

lemma hashes_example_env:
  "compute_image_hash example_env ''c.png'' = Some ''3c''"
  "compute_image_hash example_env ''x/n.png'' = Some ''f0''"
  "compute_image_hash example_env ''y/n.png'' = Some ''0f''"
  "compute_image_hash (copy_fails example_env) ''c.png'' = Some ''3c''"
  by (simp_all add: example_env_def copy_fails_def)

lemma hashes_example_world:
  "list_ex (has_hash ''f0'') (hdri_rows (db example_world))"
  "\<not> list_ex (has_hash ''3c'') (hdri_rows (db example_world))"
  by code_simp+

text \<open>
  Claim C1, as the code has it. When the hash computed for a file is the hash of a stored
  record, \<open>add_hdri\<close> shows a warning that names the incoming file and leaves the world
  as it was: no record is created, no file is copied, the rows are the same. After a
  first ingest of a file whose hash was not stored, exactly one record holds that hash,
  and a second ingest of a file with that hash is rejected in the same way.
\<close>

theorem add_hdri_duplicate_rejected:
  assumes "wf_catalog (db w)" and "compute_image_hash env p = Some h"
    and "compute_image_hash env' p' = Some h"
  shows "(list_ex (has_hash h) (hdri_rows (db w)) \<longrightarrow>
            add_hdri_file env w p =
              (w, Inr (Duplicate_Warning
                    (''Image '' @ basename p @ '' already exists in the database.''))))
      \<and> (\<not> list_ex (has_hash h) (hdri_rows (db w)) \<longrightarrow>
            length (filter (has_hash h) (hdri_rows (db (fst (add_hdri_file env w p))))) = 1 \<and>
            add_hdri_file env' (fst (add_hdri_file env w p)) p' =
              (fst (add_hdri_file env w p),
               Inr (Duplicate_Warning
                     (''Image '' @ basename p' @ '' already exists in the database.''))))"
proof (intro conjI impI)
  assume "list_ex (has_hash h) (hdri_rows (db w))"
  with assms(1,2) show "add_hdri_file env w p =
      (w, Inr (Duplicate_Warning (''Image '' @ basename p @ '' already exists in the database.'')))"
    by (rule ingest_duplicate)
next
  assume fresh: "\<not> list_ex (has_hash h) (hdri_rows (db w))"
  from ingest_new [OF assms(1,2) fresh] obtain w1 res where
    r: "add_hdri_file env w p = (w1, res)" and wf1: "wf_catalog (db w1)"
    and one: "length (filter (has_hash h) (hdri_rows (db w1))) = 1"
    by blast
  from r have w1: "fst (add_hdri_file env w p) = w1" by simp
  from one have "filter (has_hash h) (hdri_rows (db w1)) \<noteq> []" by auto
  then have dup: "list_ex (has_hash h) (hdri_rows (db w1))"
    by (simp add: list_ex_iff filter_empty_conv)
  show "length (filter (has_hash h) (hdri_rows (db (fst (add_hdri_file env w p))))) = 1"
    unfolding w1 by (rule one)
  show "add_hdri_file env' (fst (add_hdri_file env w p)) p' =
      (fst (add_hdri_file env w p),
       Inr (Duplicate_Warning (''Image '' @ basename p' @ '' already exists in the database.'')))"
    unfolding w1 by (rule ingest_duplicate [OF wf1 assms(3) dup])
qed

text \<open>
  The theorem at the small catalog: a file with the hash of the first record, and the
  file \<open>c.png\<close> ingested twice.
\<close>

theorem add_hdri_duplicate_rejected_witness:
  "wf_catalog (db example_world)
   \<and> compute_image_hash example_env ''x/n.png'' = Some ''f0''
   \<and> list_ex (has_hash ''f0'') (hdri_rows (db example_world))
   \<and> add_hdri_file example_env example_world ''x/n.png'' =
        (example_world, Inr (Duplicate_Warning ''Image n.png already exists in the database.''))
   \<and> compute_image_hash example_env ''c.png'' = Some ''3c''
   \<and> \<not> list_ex (has_hash ''3c'') (hdri_rows (db example_world))
   \<and> length (filter (has_hash ''3c'')
        (hdri_rows (db (fst (add_hdri_file example_env example_world ''c.png''))))) = 1
   \<and> snd (add_hdri_file example_env
             (fst (add_hdri_file example_env example_world ''c.png'')) ''c.png'') =
        Inr (Duplicate_Warning ''Image c.png already exists in the database.'')"
proof -
  have b: "basename ''x/n.png'' = ''n.png''" "basename ''c.png'' = ''c.png''"
    by (simp_all add: basename_def is_sep_def)
  from add_hdri_duplicate_rejected [OF wf_example_world hashes_example_env(2) hashes_example_env(2)]
    hashes_example_world(1)
  have 1: "add_hdri_file example_env example_world ''x/n.png'' =
        (example_world, Inr (Duplicate_Warning ''Image n.png already exists in the database.''))"
    by (simp add: b)
  from add_hdri_duplicate_rejected [OF wf_example_world hashes_example_env(1) hashes_example_env(1)]
    hashes_example_world(2)
  have 2: "length (filter (has_hash ''3c'')
        (hdri_rows (db (fst (add_hdri_file example_env example_world ''c.png''))))) = 1
   \<and> snd (add_hdri_file example_env
             (fst (add_hdri_file example_env example_world ''c.png'')) ''c.png'') =
        Inr (Duplicate_Warning ''Image c.png already exists in the database.'')"
    by (simp add: b)
  from wf_example_world hashes_example_env(1,2) hashes_example_world 1 2
  show ?thesis by simp
qed

text \<open>
  Claim C1 as stated fails where it says that the rejection identifies the existing
  record: two files of the same name, one with the hash of record 1 and one with the hash
  of record 2, are rejected with the same warning.
\<close>

theorem duplicate_warning_counterexample:
  "select_id_by_hash example_catalog ''f0'' = Inr (Some (SInt 1))
   \<and> select_id_by_hash example_catalog ''0f'' = Inr (Some (SInt 2))
   \<and> compute_image_hash example_env ''x/n.png'' = Some ''f0''
   \<and> compute_image_hash example_env ''y/n.png'' = Some ''0f''
   \<and> snd (add_hdri_file example_env example_world ''x/n.png'') =
        Inr (Duplicate_Warning ''Image n.png already exists in the database.'')
   \<and> snd (add_hdri_file example_env example_world ''y/n.png'') =
        Inr (Duplicate_Warning ''Image n.png already exists in the database.'')"
  by code_simp




subsection \<open>Identifiers after the removal of a tag\<close>

text \<open>
  Claim C4 against the code. \<open>initialize_database\<close> declares \<open>id\<close> AUTOINCREMENT, so
  that the identifier of a deleted record is not given again: in the small catalog,
  after record 2 is deleted the next ingest gets the identifier 3. The table that
  \<open>drop_column_from_table\<close> builds is not AUTOINCREMENT: after the tag \<open>tag_sky\<close> was
  removed, the same deletion and ingest give the new record the identifier 2 of the
  deleted one.
\<close>

theorem id_reused_after_tag_removal:
  "snd (add_hdri_file example_env
         (fst (delete_hdri example_env example_world 2 ''/s/00002_b/b.png'' True)) ''c.png'')
     = Inr (Ingested 3)
   \<and> snd (add_hdri_file example_env
         (fst (delete_hdri example_env
                (example_world\<lparr>db := fst (delete_tag no_fault example_catalog ''tag_sky'')\<rparr>)
                2 ''/s/00002_b/b.png'' True)) ''c.png'')
     = Inr (Ingested 2)"
  by code_simp

subsection \<open>Adding a tag\<close>

text \<open>
  Claim C9 against the code. \<open>safe_tag_column\<close> replaces the space character only. For
  the name \<open>a b\<close> with a space, entered in the dialog of record 1 of the small catalog,
  the column \<open>tag_a_b\<close> is added, false on every record and then true on record 1. For
  the same name with a tab instead of the space, the tab stays in the text of the two
  statements: \<open>ALTER TABLE\<close> adds a column \<open>tag_a\<close> of the declared type \<open>b BOOLEAN\<close>,
  false on every record, and \<open>UPDATE\<close> is refused with an exception that nothing
  catches, so that record 1 is not set true.
\<close>

theorem tab_in_tag_name:
  "py_isspace (CHR 0x09)
   \<and> safe_tag_column ''a b'' = ''tag_a_b''
   \<and> (case add_new_tag example_catalog 1 ''a b'' of
         None \<Rightarrow> False
       | Some (d', r) \<Rightarrow>
           r = Inr Tag_Added \<and>
           map (\<lambda>c. (col_name c, col_type c)) (drop 6 (pragma_table_info d' ''hdri'')) =
             [(''tag_sky'', ''BOOLEAN''), (''tag_a_b'', ''BOOLEAN'')] \<and>
           map (\<lambda>r. row_get r ''tag_a_b'') (hdri_rows d') = [Some (SInt 1), Some (SInt 0)])
   \<and> safe_tag_column [CHR ''a'', CHR 0x09, CHR ''b''] =
       [CHR ''t'', CHR ''a'', CHR ''g'', CHR ''_'', CHR ''a'', CHR 0x09, CHR ''b'']
   \<and> (case add_new_tag example_catalog 1 [CHR ''a'', CHR 0x09, CHR ''b''] of
         None \<Rightarrow> False
       | Some (d', r) \<Rightarrow>
           r = Inl (OperationalError
                      [CHR ''n'', CHR ''e'', CHR ''a'', CHR ''r'', CHR '' '', CHR 0x22, CHR ''b'',
                       CHR 0x22, CHR '':'', CHR '' '', CHR ''s'', CHR ''y'', CHR ''n'', CHR ''t'',
                       CHR ''a'', CHR ''x'', CHR '' '', CHR ''e'', CHR ''r'', CHR ''r'',
                       CHR ''o'', CHR ''r'']) \<and>
           map (\<lambda>c. (col_name c, col_type c)) (drop 6 (pragma_table_info d' ''hdri'')) =
             [(''tag_sky'', ''BOOLEAN''), (''tag_a'', ''b BOOLEAN'')] \<and>
           map (\<lambda>r. row_get r ''tag_a'') (hdri_rows d') = [Some (SInt 0), Some (SInt 0)] \<and>
           map (\<lambda>r. row_get r ''tag_a_b'') (hdri_rows d') = [None, None])"
  by code_simp

subsection \<open>The query\<close>




















end
